theory Spec2Isabelle
  imports Complex_Main "HOL-Library.AList"
begin

section \<open>Flotation circuits with split factors: data model\<close>

text \<open>
  The embedding follows \<^verbatim>\<open>splitfactor/core/equipos.py\<close>, \<^verbatim>\<open>core/io.py\<close> and
  \<^verbatim>\<open>core/simulador.py\<close>. Python floats are read as real numbers, except in the section
  on the splitter in double arithmetic, where every operation is rounded; infinities and
  NaN are outside the model. A Python dictionary keeps its insertion order, so both
  dictionaries of the simulator are association lists; \<open>map_of\<close> is the lookup and
  \<open>AList.map_entry\<close> the in-place mutation of the object stored under a key.
\<close>

datatype error = KeyError | IndexError | NotImplementedError | ZeroDivisionError

text \<open>The dataclass \<^verbatim>\<open>Flujo\<close>; its field \<^verbatim>\<open>id\<close> is \<open>id_flujo\<close> here.\<close>

record Flujo =
  id_flujo :: int
  nombre :: string
  masa :: real
  ley :: real
  contenido_fino :: real

type_synonym flujos_t = "(int \<times> Flujo) list"

text \<open>Float division of Python raises on a zero divisor.\<close>

definition py_div :: "real \<Rightarrow> real \<Rightarrow> error + real" where
  "py_div a b = (if b = 0 then Inl ZeroDivisionError else Inr (a / b))"

definition actualizar_contenido_fino :: "Flujo \<Rightarrow> Flujo" where
  "actualizar_contenido_fino f = f\<lparr>contenido_fino := masa f * ley f / 100\<rparr>"

definition actualizar_ley :: "Flujo \<Rightarrow> error + Flujo" where
  "actualizar_ley f =
     (if masa f > 0
      then (case py_div (contenido_fino f) (masa f) of
              Inl err \<Rightarrow> Inl err
            | Inr q \<Rightarrow> Inr (f\<lparr>ley := q * 100\<rparr>))
      else Inr (f\<lparr>ley := 0\<rparr>))"

text \<open>
  The classes \<^verbatim>\<open>Equipo\<close>, \<^verbatim>\<open>Celda\<close> and \<^verbatim>\<open>Suma\<close> share their attributes and differ in
  \<^verbatim>\<open>calcular\<close> only, so the class is a tag of the record.
\<close>

datatype clase = EquipoBase | Celda | Suma

record Equipo =
  nombre_eq :: string
  clase_eq :: clase
  flujos_entrada :: "int list"
  flujos_salida :: "int list"
  split_factor :: "real list"

type_synonym equipos_t = "(string \<times> Equipo) list"

text \<open>
  A method that mutates the flows returns the dictionary as it is when the method
  returns (\<open>Inr\<close>) or as it is when the exception leaves the method (\<open>Inl\<close>).
\<close>

type_synonym efecto = "(error \<times> flujos_t) + flujos_t"

definition estado :: "efecto \<Rightarrow> flujos_t" where
  "estado r = (case r of Inl (err, fl) \<Rightarrow> fl | Inr fl \<Rightarrow> fl)"

text \<open>
  Reading an attribute through a reference that an earlier dictionary lookup returned.
  The variables \<^verbatim>\<open>entrada\<close>, \<^verbatim>\<open>concentrado\<close> and \<^verbatim>\<open>relave\<close> of the source are references
  into the dictionary and may alias, so every read goes to the current store. The
  \<open>None\<close> branch is never reached: the key was found before and no key is removed.
\<close>

definition campo :: "(Flujo \<Rightarrow> real) \<Rightarrow> flujos_t \<Rightarrow> int \<Rightarrow> real" where
  "campo g fl k = (case map_of fl k of Some f \<Rightarrow> g f | None \<Rightarrow> 0)"

definition actualizar_ley_en :: "int \<Rightarrow> flujos_t \<Rightarrow> efecto" where
  "actualizar_ley_en k fl =
     (case map_of fl k of
        None \<Rightarrow> Inl (KeyError, fl)
      | Some f \<Rightarrow>
          (case actualizar_ley f of
             Inl err \<Rightarrow> Inl (err, fl)
           | Inr f' \<Rightarrow> Inr (AList.map_entry k (\<lambda>_. f') fl)))"

definition calcular_celda :: "Equipo \<Rightarrow> flujos_t \<Rightarrow> efecto" where
  "calcular_celda e fl =
     (case flujos_entrada e of
        [] \<Rightarrow> Inl (IndexError, fl)
      | ie # _ \<Rightarrow>
     if map_of fl ie = None then Inl (KeyError, fl) else
     let fl1 = AList.map_entry ie actualizar_contenido_fino fl in
     (case flujos_salida e of
        [] \<Rightarrow> Inl (IndexError, fl1)
      | ic # sal \<Rightarrow>
     if map_of fl1 ic = None then Inl (KeyError, fl1) else
     (case sal of
        [] \<Rightarrow> Inl (IndexError, fl1)
      | ir # _ \<Rightarrow>
     if map_of fl1 ir = None then Inl (KeyError, fl1) else
     (case split_factor e of
        [] \<Rightarrow> Inl (IndexError, fl1)
      | sp_masa # sps \<Rightarrow>
     (case sps of
        [] \<Rightarrow> Inl (IndexError, fl1)
      | sp_cuf # _ \<Rightarrow>
     let fl2 = AList.map_entry ic (\<lambda>f. f\<lparr>masa := campo masa fl1 ie * sp_masa\<rparr>) fl1;
         fl3 = AList.map_entry ir (\<lambda>f. f\<lparr>masa := campo masa fl2 ie * (1 - sp_masa)\<rparr>) fl2;
         fl4 = AList.map_entry ic
                 (\<lambda>f. f\<lparr>contenido_fino := campo contenido_fino fl3 ie * sp_cuf\<rparr>) fl3;
         fl5 = AList.map_entry ir
                 (\<lambda>f. f\<lparr>contenido_fino := campo contenido_fino fl4 ie * (1 - sp_cuf)\<rparr>) fl4
     in (case actualizar_ley_en ic fl5 of
           Inl x \<Rightarrow> Inl x
         | Inr fl6 \<Rightarrow> actualizar_ley_en ir fl6))))))"

text \<open>The loop of \<^verbatim>\<open>Suma.calcular\<close> over the input ids; \<open>io\<close> is the output id.\<close>

fun sumar_entradas :: "int \<Rightarrow> int list \<Rightarrow> flujos_t \<Rightarrow> efecto" where
  "sumar_entradas io [] fl = Inr fl"
| "sumar_entradas io (k # ks) fl =
     (if map_of fl k = None then Inl (KeyError, fl) else
      let fl1 = AList.map_entry io (\<lambda>f. f\<lparr>masa := masa f + campo masa fl k\<rparr>) fl;
          fl2 = AList.map_entry io
                  (\<lambda>f. f\<lparr>contenido_fino := contenido_fino f + campo contenido_fino fl1 k\<rparr>) fl1
      in sumar_entradas io ks fl2)"

definition calcular_suma :: "Equipo \<Rightarrow> flujos_t \<Rightarrow> efecto" where
  "calcular_suma e fl =
     (case flujos_salida e of
        [] \<Rightarrow> Inl (IndexError, fl)
      | io # _ \<Rightarrow>
     if map_of fl io = None then Inl (KeyError, fl) else
     let fl1 = AList.map_entry io (\<lambda>f. f\<lparr>masa := 0\<rparr>) fl;
         fl2 = AList.map_entry io (\<lambda>f. f\<lparr>contenido_fino := 0\<rparr>) fl1
     in (case sumar_entradas io (flujos_entrada e) fl2 of
           Inl x \<Rightarrow> Inl x
         | Inr fl3 \<Rightarrow> actualizar_ley_en io fl3))"

definition calcular :: "Equipo \<Rightarrow> flujos_t \<Rightarrow> efecto" where
  "calcular e fl =
     (case clase_eq e of
        EquipoBase \<Rightarrow> Inl (NotImplementedError, fl)
      | Celda \<Rightarrow> calcular_celda e fl
      | Suma \<Rightarrow> calcular_suma e fl)"


section \<open>The splitter in double arithmetic\<close>

text \<open>
  A Python float is an IEEE 754 double, and every product, quotient and difference of
  the source is the exact result rounded to the nearest double, ties to the even
  significand. \<open>doble\<close> is that rounding: 53 bits of significand, and an exponent
  that does not go below \<open>- 1022\<close>, so that under \<open>1 / 2 ^ 1022\<close> the doubles are the
  multiples of \<open>1 / 2 ^ 1074\<close>. The exponent is not bounded above: the infinities that
  IEEE 754 gives from \<open>2 ^ 1024\<close> on are not values of the model, and the property of
  the splitter is stated for quantities that do not exceed \<open>2 ^ 1023\<close>.
\<close>

definition redondeo_par :: "real \<Rightarrow> int" where
  "redondeo_par y =
     (let f = \<lfloor>y\<rfloor>; d = y - of_int f
      in if d < 1 / 2 then f else if 1 / 2 < d then f + 1 else if even f then f else f + 1)"

definition doble :: "real \<Rightarrow> real" where
  "doble x =
     (if x = 0 then 0
      else let q = 2 powi (max \<lfloor>log 2 \<bar>x\<bar>\<rfloor> (- 1022) - 52)
           in of_int (redondeo_par (x / q)) * q)"

text \<open>
  \<^verbatim>\<open>Celda.calcular\<close> and the two methods of \<^verbatim>\<open>Flujo\<close> that it calls, with every
  arithmetic operation rounded by \<open>rd\<close>: the statements are those of \<open>calcular_celda\<close>,
  which is the case where \<open>rd\<close> rounds nothing.
\<close>

definition actualizar_contenido_fino_red :: "(real \<Rightarrow> real) \<Rightarrow> Flujo \<Rightarrow> Flujo" where
  "actualizar_contenido_fino_red rd f = f\<lparr>contenido_fino := rd (rd (masa f * ley f) / 100)\<rparr>"

definition actualizar_ley_red :: "(real \<Rightarrow> real) \<Rightarrow> Flujo \<Rightarrow> error + Flujo" where
  "actualizar_ley_red rd f =
     (if masa f > 0
      then (case py_div (contenido_fino f) (masa f) of
              Inl err \<Rightarrow> Inl err
            | Inr q \<Rightarrow> Inr (f\<lparr>ley := rd (rd q * 100)\<rparr>))
      else Inr (f\<lparr>ley := 0\<rparr>))"

definition actualizar_ley_en_red :: "(real \<Rightarrow> real) \<Rightarrow> int \<Rightarrow> flujos_t \<Rightarrow> efecto" where
  "actualizar_ley_en_red rd k fl =
     (case map_of fl k of
        None \<Rightarrow> Inl (KeyError, fl)
      | Some f \<Rightarrow>
          (case actualizar_ley_red rd f of
             Inl err \<Rightarrow> Inl (err, fl)
           | Inr f' \<Rightarrow> Inr (AList.map_entry k (\<lambda>_. f') fl)))"

definition calcular_celda_red :: "(real \<Rightarrow> real) \<Rightarrow> Equipo \<Rightarrow> flujos_t \<Rightarrow> efecto" where
  "calcular_celda_red rd e fl =
     (case flujos_entrada e of
        [] \<Rightarrow> Inl (IndexError, fl)
      | ie # _ \<Rightarrow>
     if map_of fl ie = None then Inl (KeyError, fl) else
     let fl1 = AList.map_entry ie (actualizar_contenido_fino_red rd) fl in
     (case flujos_salida e of
        [] \<Rightarrow> Inl (IndexError, fl1)
      | ic # sal \<Rightarrow>
     if map_of fl1 ic = None then Inl (KeyError, fl1) else
     (case sal of
        [] \<Rightarrow> Inl (IndexError, fl1)
      | ir # _ \<Rightarrow>
     if map_of fl1 ir = None then Inl (KeyError, fl1) else
     (case split_factor e of
        [] \<Rightarrow> Inl (IndexError, fl1)
      | sp_masa # sps \<Rightarrow>
     (case sps of
        [] \<Rightarrow> Inl (IndexError, fl1)
      | sp_cuf # _ \<Rightarrow>
     let fl2 = AList.map_entry ic (\<lambda>f. f\<lparr>masa := rd (campo masa fl1 ie * sp_masa)\<rparr>) fl1;
         fl3 = AList.map_entry ir
                 (\<lambda>f. f\<lparr>masa := rd (campo masa fl2 ie * rd (1 - sp_masa))\<rparr>) fl2;
         fl4 = AList.map_entry ic
                 (\<lambda>f. f\<lparr>contenido_fino := rd (campo contenido_fino fl3 ie * sp_cuf)\<rparr>) fl3;
         fl5 = AList.map_entry ir
                 (\<lambda>f. f\<lparr>contenido_fino :=
                          rd (campo contenido_fino fl4 ie * rd (1 - sp_cuf))\<rparr>) fl4
     in (case actualizar_ley_en_red rd ic fl5 of
           Inl x \<Rightarrow> Inl x
         | Inr fl6 \<Rightarrow> actualizar_ley_en_red rd ir fl6))))))"

definition poner_ley_red :: "(real \<Rightarrow> real) \<Rightarrow> Flujo \<Rightarrow> Flujo" where
  "poner_ley_red rd f =
     f\<lparr>ley := (if masa f > 0 then rd (rd (contenido_fino f / masa f) * 100) else 0)\<rparr>"

section \<open>The simulator\<close>

text \<open>
  \<^verbatim>\<open>identificar_flujos_globales\<close> of \<^verbatim>\<open>core/io.py\<close>. Python sets of flow ids are HOL sets.
\<close>

definition todas_entradas :: "equipos_t \<Rightarrow> int set" where
  "todas_entradas eqs = set (concat (map (\<lambda>(n, e). flujos_entrada e) eqs))"

definition todas_salidas :: "equipos_t \<Rightarrow> int set" where
  "todas_salidas eqs = set (concat (map (\<lambda>(n, e). flujos_salida e) eqs))"

definition identificar_flujos_globales ::
  "equipos_t \<Rightarrow> int set option \<Rightarrow> int set \<times> int set \<times> int set \<times> int set" where
  "identificar_flujos_globales eqs relave_opt =
     (let relave = (case relave_opt of None \<Rightarrow> {} | Some s \<Rightarrow> s);
          entradas = todas_entradas eqs;
          salidas = todas_salidas eqs;
          flujos_entrada_g = entradas - salidas;
          flujos_salida_g = salidas - entradas;
          flujos_salida_conc = flujos_salida_g - relave;
          flujos_internos = entradas \<inter> salidas
      in (flujos_entrada_g, flujos_salida_g, flujos_salida_conc, flujos_internos))"

record Simulador =
  equipos :: equipos_t
  flujos :: flujos_t
  flujos_relave :: "int set"
  iteraciones_convergencia :: int
  f_entrada :: "int set"
  f_salida :: "int set"
  f_salida_conc :: "int set"
  f_internos :: "int set"

text \<open>
  The constructor. An omitted \<^verbatim>\<open>flujos_relave\<close> is \<open>None\<close>, an omitted
  \<^verbatim>\<open>iteraciones_convergencia\<close> is \<open>None\<close> and takes the default of the signature.
\<close>

definition iteraciones_por_defecto :: int where
  "iteraciones_por_defecto = 100"

definition Simulador_init ::
  "equipos_t \<Rightarrow> flujos_t \<Rightarrow> int set option \<Rightarrow> int option \<Rightarrow> Simulador" where
  "Simulador_init eqs fl relave_opt iter_opt =
     (case identificar_flujos_globales eqs relave_opt of
        (fe, fs, fsc, fi) \<Rightarrow>
          \<lparr>equipos = eqs, flujos = fl,
           flujos_relave = (case relave_opt of None \<Rightarrow> {} | Some s \<Rightarrow> s),
           iteraciones_convergencia =
             (case iter_opt of None \<Rightarrow> iteraciones_por_defecto | Some n \<Rightarrow> n),
           f_entrada = fe, f_salida = fs, f_salida_conc = fsc, f_internos = fi\<rparr>)"

text \<open>
  The three assignments under the membership test of \<^verbatim>\<open>establecer_alimentacion\<close>, on
  a dictionary of flows; the Monte Carlo loop repeats them on its copy.
\<close>

definition fijar_alimentacion :: "flujos_t \<Rightarrow> int \<Rightarrow> real \<Rightarrow> real \<Rightarrow> flujos_t" where
  "fijar_alimentacion fl k m l =
     (if map_of fl k \<noteq> None
      then AList.map_entry k actualizar_contenido_fino
             (AList.map_entry k (\<lambda>f. f\<lparr>ley := l\<rparr>)
                (AList.map_entry k (\<lambda>f. f\<lparr>masa := m\<rparr>) fl))
      else fl)"

definition establecer_alimentacion :: "Simulador \<Rightarrow> int \<Rightarrow> real \<Rightarrow> real \<Rightarrow> Simulador" where
  "establecer_alimentacion sim k m l = sim\<lparr>flujos := fijar_alimentacion (flujos sim) k m l\<rparr>"

text \<open>
  The feed settings of a caller: \<^verbatim>\<open>establecer_alimentacion\<close> for every entry, in order,
  as \<^verbatim>\<open>simular_escenarios\<close> and the examples do before they call \<^verbatim>\<open>simular\<close>.
\<close>

fun establecer_alimentaciones :: "Simulador \<Rightarrow> (int \<times> real \<times> real) list \<Rightarrow> Simulador" where
  "establecer_alimentaciones sim [] = sim"
| "establecer_alimentaciones sim ((k, m, l) # resto) =
     establecer_alimentaciones (establecer_alimentacion sim k m l) resto"

text \<open>One pass: every node of the dictionary, in its order; an exception ends the pass.\<close>

fun ejecutar_equipos :: "Equipo list \<Rightarrow> flujos_t \<Rightarrow> efecto" where
  "ejecutar_equipos [] fl = Inr fl"
| "ejecutar_equipos (e # es) fl =
     (case calcular e fl of
        Inl x \<Rightarrow> Inl x
      | Inr fl' \<Rightarrow> ejecutar_equipos es fl')"

definition ejecutar_iteracion :: "equipos_t \<Rightarrow> flujos_t \<Rightarrow> efecto" where
  "ejecutar_iteracion eqs fl = ejecutar_equipos (map snd eqs) fl"

text \<open>The loop \<^verbatim>\<open>for _ in range(n)\<close> of \<^verbatim>\<open>simular\<close>.\<close>

fun iterar :: "nat \<Rightarrow> equipos_t \<Rightarrow> flujos_t \<Rightarrow> efecto" where
  "iterar 0 eqs fl = Inr fl"
| "iterar (Suc n) eqs fl =
     (case ejecutar_iteracion eqs fl of
        Inl x \<Rightarrow> Inl x
      | Inr fl' \<Rightarrow> iterar n eqs fl')"

record Resultado =
  recuperacion :: real
  mass_pull :: real
  ley_concentrado :: real
  razon_enriquecimiento :: real
  error_masa :: real
  error_cuf :: real
  flujos_res :: "(int \<times> real \<times> real) list"

text \<open>
  \<^verbatim>\<open>sum(self.flujos[i].campo for i in ids)\<close>: a missing id raises \<^verbatim>\<open>KeyError\<close>.
\<close>

definition sumar_campo :: "(Flujo \<Rightarrow> real) \<Rightarrow> flujos_t \<Rightarrow> int set \<Rightarrow> error + real" where
  "sumar_campo g fl ids =
     (if \<forall>i\<in>ids. map_of fl i \<noteq> None then Inr (\<Sum>i\<in>ids. campo g fl i) else Inl KeyError)"

text \<open>
  A conditional expression \<^verbatim>\<open>(a / b * 100) if b > 0 else 0\<close>, and the one of the
  enrichment ratio, which has no factor.
\<close>

definition razon_pct :: "real \<Rightarrow> real \<Rightarrow> error + real" where
  "razon_pct a b =
     (if b > 0 then (case py_div a b of Inl err \<Rightarrow> Inl err | Inr q \<Rightarrow> Inr (q * 100))
      else Inr 0)"

definition razon_simple :: "real \<Rightarrow> real \<Rightarrow> error + real" where
  "razon_simple a b = (if b > 0 then py_div a b else Inr 0)"

text \<open>
  \<^verbatim>\<open>_calcular_resultados\<close>. The order in which \<^verbatim>\<open>list(self.f_entrada)\<close> enumerates a set
  is the interpreter's; it is the parameter \<open>lista\<close>.
\<close>

definition calcular_resultados :: "(int set \<Rightarrow> int list) \<Rightarrow> Simulador \<Rightarrow> error + Resultado" where
  "calcular_resultados lista sim =
     (case lista (f_entrada sim) of
        [] \<Rightarrow> Inl IndexError
      | id_alim # _ \<Rightarrow>
     (case map_of (flujos sim) id_alim of
        None \<Rightarrow> Inl KeyError
      | Some alim \<Rightarrow>
     (case sumar_campo masa (flujos sim) (f_salida_conc sim) of
        Inl err \<Rightarrow> Inl err
      | Inr masa_conc \<Rightarrow>
     (case sumar_campo contenido_fino (flujos sim) (f_salida_conc sim) of
        Inl err \<Rightarrow> Inl err
      | Inr cuf_conc \<Rightarrow>
     (case razon_pct cuf_conc (contenido_fino alim) of
        Inl err \<Rightarrow> Inl err
      | Inr rec \<Rightarrow>
     (case razon_pct masa_conc (masa alim) of
        Inl err \<Rightarrow> Inl err
      | Inr mp \<Rightarrow>
     (case razon_pct cuf_conc masa_conc of
        Inl err \<Rightarrow> Inl err
      | Inr ley_conc \<Rightarrow>
     (case razon_simple rec mp of
        Inl err \<Rightarrow> Inl err
      | Inr re \<Rightarrow>
     (case sumar_campo masa (flujos sim) (f_salida sim) of
        Inl err \<Rightarrow> Inl err
      | Inr masa_salida \<Rightarrow>
     (case sumar_campo contenido_fino (flujos sim) (f_salida sim) of
        Inl err \<Rightarrow> Inl err
      | Inr cuf_salida \<Rightarrow>
          Inr \<lparr>recuperacion = rec, mass_pull = mp, ley_concentrado = ley_conc,
               razon_enriquecimiento = re,
               error_masa = masa alim - masa_salida,
               error_cuf = contenido_fino alim - cuf_salida,
               flujos_res = map (\<lambda>(k, v). (k, masa v, ley v)) (flujos sim)\<rparr>))))))))))"

text \<open>
  \<^verbatim>\<open>simular\<close>: the passes, then the metrics. The flows of the simulator are returned
  as the call leaves them, also when it raises.
\<close>

definition simular ::
  "(int set \<Rightarrow> int list) \<Rightarrow> Simulador \<Rightarrow> (error \<times> flujos_t) + (flujos_t \<times> Resultado)" where
  "simular lista sim =
     (case iterar (nat (iteraciones_convergencia sim)) (equipos sim) (flujos sim) of
        Inl x \<Rightarrow> Inl x
      | Inr fl' \<Rightarrow>
          (case calcular_resultados lista (sim\<lparr>flujos := fl'\<rparr>) of
             Inl err \<Rightarrow> Inl (err, fl')
           | Inr res \<Rightarrow> Inr (fl', res)))"

section \<open>Monte Carlo\<close>

record ConfiguracionMC =
  equipos_objetivo :: "string list"
  rangos :: "(string \<times> (string \<times> real \<times> real) list) list"
  n_iteraciones :: int
  ley_min :: "real option"
  ley_max :: "real option"

type_synonym alimentacion_t = "(int \<times> (string \<times> real) list) list"

type_synonym split_info_t = "(string \<times> real) list"

text \<open>
  The row of a trial. The dictionary of the source has the keys \<^verbatim>\<open>iteracion\<close>, the four
  metrics, \<^verbatim>\<open>{nombre}_sp_masa\<close> and \<^verbatim>\<open>{nombre}_sp_cuf\<close> for every sampled node, and
  \<^verbatim>\<open>flujo_{id}_masa\<close> and \<^verbatim>\<open>flujo_{id}_ley\<close> for every flow; the three families of keys
  cannot collide, so they are three fields.
\<close>

record Fila =
  iteracion :: nat
  recuperacion_f :: real
  mass_pull_f :: real
  ley_concentrado_f :: real
  razon_enriquecimiento_f :: real
  split_info_f :: split_info_t
  flujos_f :: "(int \<times> real \<times> real) list"

text \<open>The feed settings on the copy of the flows; a missing key of \<^verbatim>\<open>valores\<close> raises.\<close>

fun aplicar_alimentacion :: "alimentacion_t \<Rightarrow> flujos_t \<Rightarrow> error + flujos_t" where
  "aplicar_alimentacion [] fl = Inr fl"
| "aplicar_alimentacion ((k, valores) # resto) fl =
     (if map_of fl k \<noteq> None
      then (case map_of valores ''masa'' of
              None \<Rightarrow> Inl KeyError
            | Some m \<Rightarrow>
                (case map_of valores ''ley'' of
                   None \<Rightarrow> Inl KeyError
                 | Some l \<Rightarrow> aplicar_alimentacion resto (fijar_alimentacion fl k m l)))
      else aplicar_alimentacion resto fl)"

text \<open>
  The sampling loop over \<^verbatim>\<open>config.equipos_objetivo\<close>. \<open>uniform c lo hi\<close> is what the
  \<open>c\<close>-th call of \<^verbatim>\<open>np.random.uniform\<close> of the run returns for the bounds \<open>lo\<close> and
  \<open>hi\<close>; the loop threads the number of calls made so far.
\<close>

fun sortear ::
  "string list \<Rightarrow> (string \<times> (string \<times> real \<times> real) list) list \<Rightarrow> (nat \<Rightarrow> real \<Rightarrow> real \<Rightarrow> real) \<Rightarrow>
   nat \<times> equipos_t \<times> split_info_t \<Rightarrow> error + (nat \<times> equipos_t \<times> split_info_t)" where
  "sortear [] rs uniform st = Inr st"
| "sortear (nombre_e # resto) rs uniform (c, eqs, info) =
     (if map_of eqs nombre_e \<noteq> None
      then (case map_of rs nombre_e of
              None \<Rightarrow> Inl KeyError
            | Some r \<Rightarrow>
          (case map_of r ''masa'' of
              None \<Rightarrow> Inl KeyError
            | Some (lo_m, hi_m) \<Rightarrow>
          (case map_of r ''cuf'' of
              None \<Rightarrow> Inl KeyError
            | Some (lo_c, hi_c) \<Rightarrow>
                let sp_masa = uniform c lo_m hi_m;
                    sp_cuf = uniform (c + 1) lo_c hi_c;
                    eqs' = AList.map_entry nombre_e
                             (\<lambda>e. e\<lparr>split_factor := [sp_masa, sp_cuf]\<rparr>) eqs;
                    info' = AList.update (nombre_e @ ''_sp_cuf'') sp_cuf
                              (AList.update (nombre_e @ ''_sp_masa'') sp_masa info)
                in sortear resto rs uniform (c + 2, eqs', info'))))
      else sortear resto rs uniform (c, eqs, info))"

text \<open>
  The body of the \<^verbatim>\<open>try\<close> statement: \<open>None\<close> is \<^verbatim>\<open>continue\<close>, reached from the validity
  test and from \<^verbatim>\<open>except Exception\<close>, which catches every exception of the model.
\<close>

definition intento ::
  "(int set \<Rightarrow> int list) \<Rightarrow> Simulador \<Rightarrow> nat \<Rightarrow> split_info_t \<Rightarrow> Fila option" where
  "intento lista sim_temp i info =
     (case simular lista sim_temp of
        Inl x \<Rightarrow> None
      | Inr (fl', resultado) \<Rightarrow>
          if list_all (\<lambda>(k, m, l). l < 36) (flujos_res resultado)
          then Some \<lparr>iteracion = i,
                     recuperacion_f = recuperacion resultado,
                     mass_pull_f = mass_pull resultado,
                     ley_concentrado_f = ley_concentrado resultado,
                     razon_enriquecimiento_f = razon_enriquecimiento resultado,
                     split_info_f = info,
                     flujos_f = flujos_res resultado\<rparr>
          else None)"

text \<open>
  The loop over the trials; \<open>is\<close> are the indices still to run. The deep copy of the
  source is the value semantics of HOL: every trial starts from the simulator's own
  nodes and flows. The progress bar has no effect on the result and is left out.
\<close>

fun bucle_mc ::
  "(int set \<Rightarrow> int list) \<Rightarrow> (nat \<Rightarrow> real \<Rightarrow> real \<Rightarrow> real) \<Rightarrow> Simulador \<Rightarrow> ConfiguracionMC \<Rightarrow>
   alimentacion_t \<Rightarrow> nat list \<Rightarrow> nat \<Rightarrow> Fila list \<Rightarrow> error + Fila list" where
  "bucle_mc lista uniform sim config alim [] c resultados = Inr resultados"
| "bucle_mc lista uniform sim config alim (i # is) c resultados =
     (case aplicar_alimentacion alim (flujos sim) of
        Inl err \<Rightarrow> Inl err
      | Inr flujos_mc \<Rightarrow>
     (case sortear (equipos_objetivo config) (rangos config) uniform (c, equipos sim, []) of
        Inl err \<Rightarrow> Inl err
      | Inr (c', equipos_mc, split_info) \<Rightarrow>
          let sim_temp = Simulador_init equipos_mc flujos_mc (Some (flujos_relave sim))
                           (Some (iteraciones_convergencia sim))
          in (case intento lista sim_temp i split_info of
                None \<Rightarrow> bucle_mc lista uniform sim config alim is c' resultados
              | Some fila \<Rightarrow>
                  bucle_mc lista uniform sim config alim is c' (resultados @ [fila]))))"

text \<open>
  The part of pandas that the function uses. \<^verbatim>\<open>pd.DataFrame(rows)\<close> has the columns of
  the rows, so none for an empty list; selecting the column \<^verbatim>\<open>ley_concentrado\<close> of a
  frame without columns raises \<^verbatim>\<open>KeyError\<close>; a boolean mask keeps the columns.
\<close>

record DataFrame =
  tiene_columnas :: bool
  filas :: "Fila list"

definition pd_DataFrame :: "Fila list \<Rightarrow> DataFrame" where
  "pd_DataFrame rs = \<lparr>tiene_columnas = (rs \<noteq> []), filas = rs\<rparr>"

definition filtrar_ley :: "(real \<Rightarrow> bool) \<Rightarrow> DataFrame \<Rightarrow> error + DataFrame" where
  "filtrar_ley p df =
     (if tiene_columnas df
      then Inr (df\<lparr>filas := filter (\<lambda>r. p (ley_concentrado_f r)) (filas df)\<rparr>)
      else Inl KeyError)"

definition simular_montecarlo ::
  "(int set \<Rightarrow> int list) \<Rightarrow> (nat \<Rightarrow> real \<Rightarrow> real \<Rightarrow> real) \<Rightarrow> Simulador \<Rightarrow> ConfiguracionMC \<Rightarrow>
   alimentacion_t \<Rightarrow> error + DataFrame" where
  "simular_montecarlo lista uniform sim config alim =
     (case bucle_mc lista uniform sim config alim [0..<nat (n_iteraciones config)] 0 [] of
        Inl err \<Rightarrow> Inl err
      | Inr resultados \<Rightarrow>
     (case (case ley_min config of
              None \<Rightarrow> Inr (pd_DataFrame resultados)
            | Some lo \<Rightarrow> filtrar_ley (\<lambda>x. x \<ge> lo) (pd_DataFrame resultados)) of
        Inl err \<Rightarrow> Inl err
      | Inr df \<Rightarrow>
          (case ley_max config of
             None \<Rightarrow> Inr df
           | Some hi \<Rightarrow> filtrar_ley (\<lambda>x. x \<le> hi) df)))"

section \<open>Notions used by the properties\<close>

text \<open>Recomputing a node, unless an exception has already ended the run.\<close>

definition recalcular :: "Equipo \<Rightarrow> efecto \<Rightarrow> efecto" where
  "recalcular e r = (case r of Inl x \<Rightarrow> Inl x | Inr fl \<Rightarrow> calcular e fl)"

text \<open>The flows that a node assigns when its \<^verbatim>\<open>calcular\<close> runs to its end.\<close>

definition asignados :: "Equipo \<Rightarrow> int set" where
  "asignados e =
     (case clase_eq e of
        EquipoBase \<Rightarrow> {}
      | Celda \<Rightarrow> set (take 2 (flujos_salida e))
      | Suma \<Rightarrow> set (take 1 (flujos_salida e)))"

text \<open>
  No recycle stream, for the nodes in the order of a pass: no input of a node is an
  output of that node or of a node recomputed after it.
\<close>

fun sin_reciclo :: "Equipo list \<Rightarrow> bool" where
  "sin_reciclo [] = True"
| "sin_reciclo (e # es) =
     ((\<forall>k \<in> set (flujos_entrada e).
         k \<notin> set (flujos_salida e) \<and> (\<forall>e' \<in> set es. k \<notin> set (flujos_salida e')))
      \<and> sin_reciclo es)"

text \<open>A flow whose fine content is the one derived from its mass and grade.\<close>

definition consistente :: "Flujo \<Rightarrow> bool" where
  "consistente f = (contenido_fino f = masa f * ley f / 100)"

text \<open>
  A circuit as the data model describes it: splitters with an input, two outputs and
  two split factors, mixers with an output, every declared id a key of the flows, and a
  feed to refer the metrics to.
\<close>

definition equipo_bien_formado :: "int list \<Rightarrow> Equipo \<Rightarrow> bool" where
  "equipo_bien_formado claves e =
     (set (flujos_entrada e) \<subseteq> set claves \<and> set (flujos_salida e) \<subseteq> set claves \<and>
      (case clase_eq e of
         EquipoBase \<Rightarrow> False
       | Celda \<Rightarrow> 1 \<le> length (flujos_entrada e) \<and> 2 \<le> length (flujos_salida e)
                    \<and> 2 \<le> length (split_factor e)
       | Suma \<Rightarrow> 1 \<le> length (flujos_salida e)))"

definition circuito_bien_formado :: "(int set \<Rightarrow> int list) \<Rightarrow> Simulador \<Rightarrow> bool" where
  "circuito_bien_formado lista sim =
     (list_all (equipo_bien_formado (map fst (flujos sim))) (map snd (equipos sim)) \<and>
      (case lista (f_entrada sim) of [] \<Rightarrow> False | k # _ \<Rightarrow> k \<in> set (map fst (flujos sim))) \<and>
      f_salida sim \<subseteq> set (map fst (flujos sim)) \<and>
      f_salida_conc sim \<subseteq> set (map fst (flujos sim)))"

text \<open>What \<^verbatim>\<open>actualizar_ley\<close> assigns, its division being guarded.\<close>

definition poner_ley :: "Flujo \<Rightarrow> Flujo" where
  "poner_ley f = f\<lparr>ley := (if masa f > 0 then contenido_fino f / masa f * 100 else 0)\<rparr>"

section \<open>The single splitter of the examples\<close>

text \<open>
  \<^verbatim>\<open>Flujo(id=k)\<close> with the defaults of the dataclass, as the loaders of \<^verbatim>\<open>core/io.py\<close>
  create every flow; one \<^verbatim>\<open>Celda\<close> from flow 1 to the concentrate 2 and the reject 3,
  the reject declared as final tailings; the feed set by \<^verbatim>\<open>establecer_alimentacion\<close>.
\<close>

definition flujo_nuevo :: "int \<Rightarrow> Flujo" where
  "flujo_nuevo k = \<lparr>id_flujo = k, nombre = [], masa = 0, ley = 0, contenido_fino = 0\<rparr>"

definition celda_ejemplo :: Equipo where
  "celda_ejemplo = \<lparr>nombre_eq = ''Celda 1'', clase_eq = Celda, flujos_entrada = [1],
     flujos_salida = [2, 3], split_factor = [0.10, 0.75]\<rparr>"

definition sim_ejemplo :: Simulador where
  "sim_ejemplo = establecer_alimentacion
     (Simulador_init [(''Celda 1'', celda_ejemplo)]
        [(1, flujo_nuevo 1), (2, flujo_nuevo 2), (3, flujo_nuevo 3)] (Some {3}) None)
     1 100 1.5"

definition flujos_ejemplo_final :: flujos_t where
  "flujos_ejemplo_final =
     [(1, \<lparr>id_flujo = 1, nombre = [], masa = 100, ley = 1.5, contenido_fino = 1.5\<rparr>),
      (2, \<lparr>id_flujo = 2, nombre = [], masa = 10, ley = 11.25, contenido_fino = 1.125\<rparr>),
      (3, \<lparr>id_flujo = 3, nombre = [], masa = 90, ley = 0.375 / 90 * 100,
           contenido_fino = 0.375\<rparr>)]"

text \<open>
  Flows in which flow 1 has no mass and a fine content, which is what a \<^verbatim>\<open>Celda\<close> with
  the split factors \<open>[0, 0.75]\<close> leaves in its concentrate.
\<close>

definition flujos_sin_masa :: flujos_t where
  "flujos_sin_masa =
     [(1, \<lparr>id_flujo = 1, nombre = [], masa = 0, ley = 0, contenido_fino = 1.125\<rparr>),
      (2, flujo_nuevo 2), (3, flujo_nuevo 3)]"

text \<open>
  The splitter with the split factors that Python reads from the literals \<^verbatim>\<open>0.1\<close> and
  \<^verbatim>\<open>0.3\<close>, which are the doubles nearest to them.
\<close>

definition celda_decimal :: Equipo where
  "celda_decimal = \<lparr>nombre_eq = ''Celda 1'', clase_eq = Celda, flujos_entrada = [1],
     flujos_salida = [2, 3],
     split_factor = [3602879701896397 / 2 ^ 55, 5404319552844595 / 2 ^ 54]\<rparr>"

section \<open>Monte Carlo runs on the single splitter\<close>

text \<open>A source of samples that returns the lower bound of every range.\<close>

definition sorteo_min :: "nat \<Rightarrow> real \<Rightarrow> real \<Rightarrow> real" where
  "sorteo_min c lo hi = lo"

text \<open>A configuration whose only target is not a node of the circuit, with one trial.\<close>

definition config_ausente :: ConfiguracionMC where
  "config_ausente = \<lparr>equipos_objetivo = [''Celda X''], rangos = [], n_iteraciones = 1,
     ley_min = None, ley_max = None\<rparr>"

text \<open>
  The default ranges of \<^verbatim>\<open>ConfiguracionMC.default\<close> for the splitter, three trials and a
  lower bound on the concentrate grade; feed settings with a grade of 50.
\<close>

definition config_ley_alta :: ConfiguracionMC where
  "config_ley_alta = \<lparr>equipos_objetivo = [''Celda 1''],
     rangos = [(''Celda 1'', [(''masa'', (0.02, 0.7)), (''cuf'', (0.02, 0.9))])],
     n_iteraciones = 3, ley_min = Some 10, ley_max = None\<rparr>"

definition alimentacion_ley_alta :: alimentacion_t where
  "alimentacion_ley_alta = [(1, [(''masa'', 100), (''ley'', 50)])]"



section \<open>Stores that agree\<close>

text \<open>
  Two flows with the same id and name; two stores that hold such flows under the same
  keys and hold equal flows under every key outside \<open>X\<close>.
\<close>

definition mismo_rotulo :: "Flujo \<Rightarrow> Flujo \<Rightarrow> bool" where
  "mismo_rotulo f g = (id_flujo f = id_flujo g \<and> nombre f = nombre g)"

definition rel_flujos :: "int set \<Rightarrow> (int \<rightharpoonup> Flujo) \<Rightarrow> (int \<rightharpoonup> Flujo) \<Rightarrow> bool" where
  "rel_flujos X m m' =
     (\<forall>k. rel_option (\<lambda>f g. mismo_rotulo f g \<and> (k \<notin> X \<longrightarrow> f = g)) (m k) (m' k))"

definition coinciden :: "int set \<Rightarrow> flujos_t \<Rightarrow> flujos_t \<Rightarrow> bool" where
  "coinciden X s t = (map fst s = map fst t \<and> rel_flujos X (map_of s) (map_of t))"

section \<open>Circuits with a mixer\<close>

text \<open>
  A \<^verbatim>\<open>Suma\<close> and then a \<^verbatim>\<open>Celda\<close> that both take flow 1, with the flows as the loaders
  create them and flow 4 as the final tailings: no flow is an input of a node and an
  output of that node or of a later one.
\<close>

definition sim_mixto_0 :: Simulador where
  "sim_mixto_0 = Simulador_init
     [(''Suma 1'', \<lparr>nombre_eq = ''Suma 1'', clase_eq = Suma, flujos_entrada = [1],
                    flujos_salida = [2], split_factor = [0, 0]\<rparr>),
      (''Celda 1'', \<lparr>nombre_eq = ''Celda 1'', clase_eq = Celda, flujos_entrada = [1],
                     flujos_salida = [3, 4], split_factor = [0.5, 0.5]\<rparr>)]
     [(1, flujo_nuevo 1), (2, flujo_nuevo 2), (3, flujo_nuevo 3), (4, flujo_nuevo 4)]
     (Some {4}) None"

text \<open>
  A recycle: the \<^verbatim>\<open>Suma\<close> adds the feed 1 and the reject 4 of the \<^verbatim>\<open>Celda\<close> that it
  feeds through flow 2; flow 3 is the product. The feed is set to mass 100 and grade 2
  and the simulator is built for two passes.
\<close>

definition sim_reciclo :: Simulador where
  "sim_reciclo = establecer_alimentacion
     (Simulador_init
        [(''Suma 1'', \<lparr>nombre_eq = ''Suma 1'', clase_eq = Suma, flujos_entrada = [1, 4],
                       flujos_salida = [2], split_factor = [0, 0]\<rparr>),
         (''Celda 1'', \<lparr>nombre_eq = ''Celda 1'', clase_eq = Celda, flujos_entrada = [2],
                        flujos_salida = [3, 4], split_factor = [0.5, 0.5]\<rparr>)]
        [(1, flujo_nuevo 1), (2, flujo_nuevo 2), (3, flujo_nuevo 3), (4, flujo_nuevo 4)]
        None (Some 2))
     1 100 2"

definition flujos_reciclo_2 :: flujos_t where
  "flujos_reciclo_2 =
     [(1, \<lparr>id_flujo = 1, nombre = [], masa = 100, ley = 2, contenido_fino = 2\<rparr>),
      (2, \<lparr>id_flujo = 2, nombre = [], masa = 150, ley = 2, contenido_fino = 3\<rparr>),
      (3, \<lparr>id_flujo = 3, nombre = [], masa = 75, ley = 2, contenido_fino = 1.5\<rparr>),
      (4, \<lparr>id_flujo = 4, nombre = [], masa = 75, ley = 2, contenido_fino = 1.5\<rparr>)]"

section \<open>Lemmas on the store and on the nodes\<close>

subsection \<open>The store and the frame of a node\<close>

lemma map_fst_map_entry: "map fst (AList.map_entry k f xs) = map fst xs"
  by (induction xs) auto

lemma actualizar_ley_total:
  "actualizar_ley f =
     Inr (f\<lparr>ley := (if masa f > 0 then contenido_fino f / masa f * 100 else 0)\<rparr>)"
  by (simp add: actualizar_ley_def py_div_def)

lemma actualizar_ley_en_Some:
  "map_of fl k = Some f \<Longrightarrow>
   actualizar_ley_en k fl =
     Inr (AList.map_entry k
            (\<lambda>_. f\<lparr>ley := (if masa f > 0 then contenido_fino f / masa f * 100 else 0)\<rparr>) fl)"
  by (simp add: actualizar_ley_en_def actualizar_ley_total)

lemma actualizar_ley_en_marco:
  "k \<noteq> j \<Longrightarrow> map_of (estado (actualizar_ley_en j fl)) k = map_of fl k"
  by (cases "map_of fl j")
     (simp_all add: actualizar_ley_en_def actualizar_ley_total estado_def map_of_map_entry)

lemma sumar_entradas_marco:
  "k \<noteq> io \<Longrightarrow> map_of (estado (sumar_entradas io ks fl)) k = map_of fl k"
  by (induction ks arbitrary: fl) (simp_all add: estado_def Let_def map_of_map_entry)

lemma calcular_suma_marco:
  assumes "k \<notin> set (flujos_salida e)"
  shows "map_of (estado (calcular_suma e fl)) k = map_of fl k"
proof (cases "flujos_salida e")
  case Nil
  then show ?thesis by (simp add: calcular_suma_def estado_def)
next
  case (Cons io sal)
  with assms have ne: "k \<noteq> io" by auto
  show ?thesis
  proof (cases "map_of fl io")
    case None
    then show ?thesis using Cons by (simp add: calcular_suma_def estado_def)
  next
    case (Some f0)
    define fl2 where "fl2 = AList.map_entry io (\<lambda>f. f\<lparr>contenido_fino := 0\<rparr>)
      (AList.map_entry io (\<lambda>f. f\<lparr>masa := 0\<rparr>) fl)"
    have m2: "map_of fl2 k = map_of fl k"
      using ne by (simp add: fl2_def map_of_map_entry)
    have s: "map_of (estado (sumar_entradas io (flujos_entrada e) fl2)) k = map_of fl k"
      using ne m2 by (simp add: sumar_entradas_marco)
    show ?thesis
    proof (cases "sumar_entradas io (flujos_entrada e) fl2")
      case (Inl x)
      then show ?thesis using Cons Some s
        by (simp add: calcular_suma_def Let_def fl2_def [symmetric])
    next
      case (Inr fl3)
      then show ?thesis using Cons Some s ne actualizar_ley_en_marco [of k io fl3]
        by (simp add: calcular_suma_def Let_def fl2_def [symmetric] estado_def)
    qed
  qed
qed


lemma estado_simps [simp]: "estado (Inl (err, fl)) = fl" "estado (Inr fl) = fl"
  by (simp_all add: estado_def)

lemma map_of_map_entry_None [simp]:
  "map_of (AList.map_entry j g fl) k = None \<longleftrightarrow> map_of fl k = None"
  by (simp add: map_of_map_entry split: option.splits)

lemma map_of_map_entry_otro:
  "k \<noteq> j \<Longrightarrow> map_of (AList.map_entry j g fl) k = map_of fl k"
  by (simp add: map_of_map_entry)

lemma calcular_celda_marco:
  assumes "k \<notin> set (flujos_salida e)"
  shows "map_of (estado (calcular_celda e fl)) k =
     (if flujos_entrada e \<noteq> [] \<and> k = hd (flujos_entrada e)
      then map_option actualizar_contenido_fino (map_of fl k) else map_of fl k)"
proof (cases "flujos_entrada e")
  case Nil
  then show ?thesis by (simp add: calcular_celda_def)
next
  case ent: (Cons ie ents)
  show ?thesis
  proof (cases "map_of fl ie")
    case None
    then show ?thesis using ent by (auto simp add: calcular_celda_def)
  next
    case (Some f0)
    define fl1 where "fl1 = AList.map_entry ie actualizar_contenido_fino fl"
    have m1: "map_of fl1 k =
       (if k = ie then map_option actualizar_contenido_fino (map_of fl k) else map_of fl k)"
      by (simp add: fl1_def map_of_map_entry split: option.splits)
    have goal: "map_of (estado (calcular_celda e fl)) k = map_of fl1 k"
    proof (cases "flujos_salida e")
      case Nil
      then show ?thesis using ent Some by (simp add: calcular_celda_def fl1_def)
    next
      case s1: (Cons ic sal)
      with assms have nic: "k \<noteq> ic" by auto
      show ?thesis
      proof (cases sal)
        case Nil
        then show ?thesis using ent Some s1
          by (simp add: calcular_celda_def fl1_def Let_def)
      next
        case s2: (Cons ir sal')
        with assms s1 have nir: "k \<noteq> ir" by auto
        show ?thesis
        proof (cases "map_of fl ic = None \<or> map_of fl ir = None
                      \<or> length (split_factor e) < 2")
          case True
          then show ?thesis using ent Some s1 s2
            by (auto simp add: calcular_celda_def fl1_def Let_def
                  split: list.splits)
        next
          case False
          then obtain sp_masa sp_cuf sps where sp: "split_factor e = sp_masa # sp_cuf # sps"
            by (cases "split_factor e"; cases "tl (split_factor e)") auto
          from False obtain fc fr where pres: "map_of fl ic = Some fc" "map_of fl ir = Some fr"
            by auto
          define fl5 where "fl5 =
            (let fl2 = AList.map_entry ic (\<lambda>f. f\<lparr>masa := campo masa fl1 ie * sp_masa\<rparr>) fl1;
                 fl3 = AList.map_entry ir (\<lambda>f. f\<lparr>masa := campo masa fl2 ie * (1 - sp_masa)\<rparr>) fl2;
                 fl4 = AList.map_entry ic
                   (\<lambda>f. f\<lparr>contenido_fino := campo contenido_fino fl3 ie * sp_cuf\<rparr>) fl3
             in AList.map_entry ir
                   (\<lambda>f. f\<lparr>contenido_fino := campo contenido_fino fl4 ie * (1 - sp_cuf)\<rparr>) fl4)"
          have m5: "map_of fl5 k = map_of fl1 k"
            using nic nir by (simp add: fl5_def Let_def map_of_map_entry_otro)
          have eq: "calcular_celda e fl =
              (case actualizar_ley_en ic fl5 of Inl x \<Rightarrow> Inl x
               | Inr fl6 \<Rightarrow> actualizar_ley_en ir fl6)"
            using pres ent Some s1 s2 sp
            by (simp add: calcular_celda_def fl1_def fl5_def Let_def)
          show ?thesis
          proof (cases "actualizar_ley_en ic fl5")
            case (Inl x)
            then show ?thesis
              using eq m5 actualizar_ley_en_marco [OF nic, of fl5] by simp
          next
            case (Inr fl6)
            then show ?thesis
              using eq m5 actualizar_ley_en_marco [OF nic, of fl5]
                actualizar_ley_en_marco [OF nir, of fl6] by simp
          qed
        qed
      qed
    qed
    show ?thesis using goal m1 ent by simp
  qed
qed

subsection \<open>The metrics\<close>

lemma razon_pct_total: "razon_pct a b = Inr (if b > 0 then a / b * 100 else 0)"
  by (simp add: razon_pct_def py_div_def)

lemma razon_simple_total: "razon_simple a b = Inr (if b > 0 then a / b else 0)"
  by (simp add: razon_simple_def py_div_def)

lemma sumar_campo_casos:
  "sumar_campo g fl ids = Inl err \<Longrightarrow> err = KeyError"
  by (simp add: sumar_campo_def split: if_splits)

lemma calcular_resultados_error:
  "calcular_resultados lista sim = Inl err \<Longrightarrow> err = KeyError \<or> err = IndexError"
  by (auto simp add: calcular_resultados_def razon_pct_total razon_simple_total
        split: list.splits option.splits sum.splits dest: sumar_campo_casos)

lemma calcular_resultados_exito:
  assumes "lista (f_entrada sim) = id_alim # resto"
    and "map_of (flujos sim) id_alim = Some alim"
    and "\<forall>i \<in> f_salida sim \<union> f_salida_conc sim. map_of (flujos sim) i \<noteq> None"
  shows "calcular_resultados lista sim =
     Inr (let masa_conc = (\<Sum>i\<in>f_salida_conc sim. campo masa (flujos sim) i);
              cuf_conc = (\<Sum>i\<in>f_salida_conc sim. campo contenido_fino (flujos sim) i);
              rec = (if contenido_fino alim > 0 then cuf_conc / contenido_fino alim * 100 else 0);
              mp = (if masa alim > 0 then masa_conc / masa alim * 100 else 0)
          in \<lparr>recuperacion = rec, mass_pull = mp,
              ley_concentrado = (if masa_conc > 0 then cuf_conc / masa_conc * 100 else 0),
              razon_enriquecimiento = (if mp > 0 then rec / mp else 0),
              error_masa = masa alim - (\<Sum>i\<in>f_salida sim. campo masa (flujos sim) i),
              error_cuf = contenido_fino alim
                          - (\<Sum>i\<in>f_salida sim. campo contenido_fino (flujos sim) i),
              flujos_res = map (\<lambda>(k, v). (k, masa v, ley v)) (flujos sim)\<rparr>)"
proof -
  have a: "\<forall>i \<in> f_salida sim. map_of (flujos sim) i \<noteq> None"
    and b: "\<forall>i \<in> f_salida_conc sim. map_of (flujos sim) i \<noteq> None"
    using assms(3) by auto
  have s1: "sumar_campo g (flujos sim) (f_salida sim)
              = Inr (\<Sum>i\<in>f_salida sim. campo g (flujos sim) i)" for g
    using a by (simp add: sumar_campo_def)
  have s2: "sumar_campo g (flujos sim) (f_salida_conc sim)
              = Inr (\<Sum>i\<in>f_salida_conc sim. campo g (flujos sim) i)" for g
    using b by (simp add: sumar_campo_def)
  show ?thesis
    using assms(1,2)
    by (simp add: calcular_resultados_def s1 s2 razon_pct_total razon_simple_total Let_def)
qed

subsection \<open>What a splitter assigns\<close>

lemma map_entry_const:
  "map_of fl k = Some f \<Longrightarrow> AList.map_entry k (\<lambda>_. F f) fl = AList.map_entry k F fl"
  by (induction fl) auto

lemma actualizar_ley_en_poner:
  "map_of fl k \<noteq> None \<Longrightarrow> actualizar_ley_en k fl = Inr (AList.map_entry k poner_ley fl)"
  using map_entry_const [of fl k _ poner_ley]
  by (auto simp add: actualizar_ley_en_Some poner_ley_def)

lemma campo_map_entry_otro:
  "k \<noteq> j \<Longrightarrow> campo g (AList.map_entry j F fl) k = campo g fl k"
  by (simp add: campo_def map_of_map_entry_otro)

lemma calcular_celda_exito:
  assumes ent: "flujos_entrada e = ie # ents"
    and sal: "flujos_salida e = ic # ir # sal"
    and sp: "split_factor e = sm # sc # sps"
    and a: "map_of fl ie = Some a" and b: "map_of fl ic = Some b" and c: "map_of fl ir = Some c"
    and d: "ie \<noteq> ic" "ie \<noteq> ir"
  shows "\<exists>fl'. calcular_celda e fl = Inr fl' \<and> map fst fl' = map fst fl \<and>
           map_of fl' = (map_of fl)
             (ie \<mapsto> actualizar_contenido_fino a,
              ic \<mapsto> poner_ley (b\<lparr>masa := masa a * sm,
                                 contenido_fino := masa a * ley a / 100 * sc\<rparr>),
              ir \<mapsto> poner_ley (c\<lparr>masa := masa a * (1 - sm),
                                 contenido_fino := masa a * ley a / 100 * (1 - sc)\<rparr>))"
  using assms
  by (simp add: calcular_celda_def Let_def actualizar_ley_en_poner campo_map_entry_otro
        map_fst_map_entry)
     (auto simp add: fun_eq_iff map_of_map_entry campo_def actualizar_contenido_fino_def
        poner_ley_def)

subsection \<open>Passes without change\<close>

lemma iterar_punto_fijo:
  "ejecutar_iteracion eqs fl = Inr fl \<Longrightarrow> iterar n eqs fl = Inr fl"
  by (induction n) simp_all

lemma iterar_pos:
  "0 < n \<Longrightarrow> iterar n eqs fl =
     (case ejecutar_iteracion eqs fl of Inl x \<Rightarrow> Inl x | Inr fl' \<Rightarrow> iterar (n - 1) eqs fl')"
  by (cases n) (simp_all split: sum.splits)

subsection \<open>The single splitter, evaluated\<close>

lemma sim_ejemplo_campos:
  "equipos sim_ejemplo = [(''Celda 1'', celda_ejemplo)]"
  "flujos sim_ejemplo =
     [(1, \<lparr>id_flujo = 1, nombre = [], masa = 100, ley = 1.5, contenido_fino = 1.5\<rparr>),
      (2, flujo_nuevo 2), (3, flujo_nuevo 3)]"
  "iteraciones_convergencia sim_ejemplo = 100"
  "f_entrada sim_ejemplo = {1}" "f_salida sim_ejemplo = {2, 3}"
  "f_salida_conc sim_ejemplo = {2}"
  by (auto simp add: sim_ejemplo_def establecer_alimentacion_def fijar_alimentacion_def
      Simulador_init_def identificar_flujos_globales_def todas_entradas_def todas_salidas_def
      celda_ejemplo_def flujo_nuevo_def actualizar_contenido_fino_def iteraciones_por_defecto_def
      Let_def)

lemma pasada_1:
  "ejecutar_iteracion (equipos sim_ejemplo) (flujos sim_ejemplo) = Inr flujos_ejemplo_final"
  by (simp add: sim_ejemplo_campos ejecutar_iteracion_def calcular_def calcular_celda_def
      celda_ejemplo_def flujo_nuevo_def actualizar_contenido_fino_def Let_def campo_def
      actualizar_ley_en_def actualizar_ley_total flujos_ejemplo_final_def)

lemma pasada_2:
  "ejecutar_iteracion (equipos sim_ejemplo) flujos_ejemplo_final = Inr flujos_ejemplo_final"
  by (simp add: sim_ejemplo_campos ejecutar_iteracion_def calcular_def calcular_celda_def
      celda_ejemplo_def flujo_nuevo_def actualizar_contenido_fino_def Let_def campo_def
      actualizar_ley_en_def actualizar_ley_total flujos_ejemplo_final_def)

lemma iterar_ejemplo:
  "iterar (nat (iteraciones_convergencia sim_ejemplo)) (equipos sim_ejemplo) (flujos sim_ejemplo)
     = Inr flujos_ejemplo_final"
proof -
  have "iterar 100 (equipos sim_ejemplo) (flujos sim_ejemplo)
      = iterar 99 (equipos sim_ejemplo) flujos_ejemplo_final"
    by (simp add: iterar_pos pasada_1)
  then show ?thesis
    by (simp add: sim_ejemplo_campos(3) iterar_punto_fijo [OF pasada_2])
qed

subsection \<open>The passes as one list of nodes, and well-formed circuits\<close>

lemma ejecutar_equipos_append:
  "ejecutar_equipos (xs @ ys) fl =
     (case ejecutar_equipos xs fl of Inl x \<Rightarrow> Inl x | Inr fl' \<Rightarrow> ejecutar_equipos ys fl')"
  by (induction xs arbitrary: fl) (simp_all split: sum.splits)

lemma iterar_concat:
  "iterar n eqs fl = ejecutar_equipos (concat (replicate n (map snd eqs))) fl"
  by (induction n arbitrary: fl)
     (simp_all add: ejecutar_iteracion_def ejecutar_equipos_append split: sum.splits)

lemma clave_presente: "map_of fl k \<noteq> None \<longleftrightarrow> k \<in> set (map fst fl)"
  by (simp add: map_of_eq_None_iff)

lemma clave_presente_ex: "(\<exists>y. map_of fl k = Some y) \<longleftrightarrow> k \<in> fst ` set fl"
  using map_of_eq_None_iff [of fl k] by auto

lemma claves_iguales:
  "map fst a = map fst b \<Longrightarrow> (map_of a k = None) = (map_of b k = None)"
  by (metis map_of_eq_None_iff set_map)

lemma calcular_celda_retorna:
  assumes "flujos_entrada e = ie # ents"
    and "flujos_salida e = ic # ir # sal"
    and "split_factor e = sm # sc # sps"
    and "map_of fl ie \<noteq> None" and "map_of fl ic \<noteq> None" and "map_of fl ir \<noteq> None"
  shows "\<exists>fl'. calcular_celda e fl = Inr fl' \<and> map fst fl' = map fst fl"
  using assms
  by (simp add: calcular_celda_def Let_def actualizar_ley_en_poner map_fst_map_entry)

lemma sumar_entradas_retorna:
  "\<forall>k \<in> set ks. map_of fl k \<noteq> None \<Longrightarrow>
   \<exists>fl'. sumar_entradas io ks fl = Inr fl' \<and> map fst fl' = map fst fl"
proof (induction ks arbitrary: fl)
  case Nil
  then show ?case by simp
next
  case (Cons k ks)
  let ?fl2 = "AList.map_entry io
      (\<lambda>f. f\<lparr>contenido_fino := contenido_fino f
             + campo contenido_fino (AList.map_entry io (\<lambda>f. f\<lparr>masa := masa f + campo masa fl k\<rparr>) fl) k\<rparr>)
      (AList.map_entry io (\<lambda>f. f\<lparr>masa := masa f + campo masa fl k\<rparr>) fl)"
  have "\<forall>k \<in> set ks. map_of ?fl2 k \<noteq> None"
    using Cons.prems by simp
  from Cons.IH [OF this] obtain fl' where
    "sumar_entradas io ks ?fl2 = Inr fl'" "map fst fl' = map fst ?fl2" by blast
  then show ?case using Cons.prems
    by (simp add: Let_def map_fst_map_entry)
qed

lemma calcular_suma_retorna:
  assumes "flujos_salida e = io # sal"
    and "map_of fl io \<noteq> None" and "\<forall>k \<in> set (flujos_entrada e). map_of fl k \<noteq> None"
  shows "\<exists>fl'. calcular_suma e fl = Inr fl' \<and> map fst fl' = map fst fl"
proof -
  let ?fl2 = "AList.map_entry io (\<lambda>f. f\<lparr>contenido_fino := 0\<rparr>)
                (AList.map_entry io (\<lambda>f. f\<lparr>masa := 0\<rparr>) fl)"
  have "\<forall>k \<in> set (flujos_entrada e). map_of ?fl2 k \<noteq> None"
    using assms(3) by simp
  from sumar_entradas_retorna [OF this, of io] obtain fl3 where
    3: "sumar_entradas io (flujos_entrada e) ?fl2 = Inr fl3" "map fst fl3 = map fst ?fl2"
    by blast
  have "map fst fl3 = map fst fl"
    using 3(2) by (simp add: map_fst_map_entry)
  from claves_iguales [OF this, of io] have "map_of fl3 io \<noteq> None"
    using assms(2) by blast
  then show ?thesis using assms(1,2) 3
    by (simp add: calcular_suma_def Let_def actualizar_ley_en_poner map_fst_map_entry)
qed

lemma calcular_retorna:
  assumes "equipo_bien_formado (map fst fl) e"
  shows "\<exists>fl'. calcular e fl = Inr fl' \<and> map fst fl' = map fst fl"
proof (cases "clase_eq e")
  case EquipoBase
  then show ?thesis using assms by (simp add: equipo_bien_formado_def)
next
  case Celda
  with assms obtain ie ents ic ir sal sm sc sps where
    "flujos_entrada e = ie # ents" "flujos_salida e = ic # ir # sal"
    "split_factor e = sm # sc # sps"
    by (cases "flujos_entrada e"; cases "flujos_salida e"; cases "tl (flujos_salida e)";
        cases "split_factor e"; cases "tl (split_factor e)")
       (auto simp add: equipo_bien_formado_def)
  then show ?thesis
    using assms Celda calcular_celda_retorna [of e ie ents ic ir sal sm sc sps fl]
    by (simp add: equipo_bien_formado_def calcular_def clave_presente_ex)
next
  case Suma
  with assms obtain io sal where "flujos_salida e = io # sal"
    by (cases "flujos_salida e") (auto simp add: equipo_bien_formado_def)
  then show ?thesis
    using assms Suma calcular_suma_retorna [of e io sal fl]
    by (auto simp add: equipo_bien_formado_def calcular_def clave_presente_ex)
qed

lemma ejecutar_equipos_retorna:
  "list_all (equipo_bien_formado (map fst fl)) es \<Longrightarrow>
   \<exists>fl'. ejecutar_equipos es fl = Inr fl' \<and> map fst fl' = map fst fl"
proof (induction es arbitrary: fl)
  case Nil
  then show ?case by simp
next
  case (Cons e es)
  then obtain fl1 where 1: "calcular e fl = Inr fl1" "map fst fl1 = map fst fl"
    using calcular_retorna [of fl e] by auto
  with Cons.prems have "list_all (equipo_bien_formado (map fst fl1)) es" by simp
  from Cons.IH [OF this] 1 show ?case by auto
qed

lemma iterar_retorna:
  "list_all (equipo_bien_formado (map fst fl)) (map snd eqs) \<Longrightarrow>
   \<exists>fl'. iterar n eqs fl = Inr fl' \<and> map fst fl' = map fst fl"
proof (induction n arbitrary: fl)
  case 0
  then show ?case by simp
next
  case (Suc n)
  then obtain fl1 where 1: "ejecutar_iteracion eqs fl = Inr fl1" "map fst fl1 = map fst fl"
    using ejecutar_equipos_retorna [of fl "map snd eqs"] by (auto simp add: ejecutar_iteracion_def)
  with Suc.prems have "list_all (equipo_bien_formado (map fst fl1)) (map snd eqs)" by simp
  from Suc.IH [OF this] 1 show ?case by auto
qed

subsection \<open>Sampling\<close>

lemma sortear_filtrar:
  "sortear objs rs u (c, eqs, info)
     = sortear (filter (\<lambda>n. n \<in> fst ` set eqs) objs) rs u (c, eqs, info)"
proof (induction objs arbitrary: c eqs info)
  case Nil
  then show ?case by simp
next
  case (Cons n objs)
  show ?case
  proof (cases "n \<in> fst ` set eqs")
    case False
    then have "map_of eqs n = None" by (simp add: map_of_eq_None_iff)
    then show ?thesis using False Cons.IH [of c eqs info] by simp
  next
    case True
    then have p: "map_of eqs n \<noteq> None" by (simp add: map_of_eq_None_iff)
    have f: "filter (\<lambda>m. m \<in> fst ` set (AList.map_entry n g eqs)) objs
            = filter (\<lambda>m. m \<in> fst ` set eqs) objs" for g
      by (simp add: dom_map_entry)
    show ?thesis
    proof (cases "map_of rs n")
      case None
      then show ?thesis using True p by simp
    next
      case (Some r)
      show ?thesis
      proof (cases "map_of r ''masa''")
        case None
        then show ?thesis using True p Some by simp
      next
        case m: (Some pm)
        show ?thesis
        proof (cases "map_of r ''cuf''")
          case None
          then show ?thesis using True p Some m by (simp split: prod.splits)
        next
          case c: (Some pc)
          obtain lm hm lc hc where pp: "pm = (lm, hm)" "pc = (lc, hc)"
            by (cases pm; cases pc) auto
          let ?eqs = "AList.map_entry n (\<lambda>e. e\<lparr>split_factor := [u c lm hm, u (c + 1) lc hc]\<rparr>) eqs"
          let ?info = "AList.update (n @ ''_sp_cuf'') (u (c + 1) lc hc)
                         (AList.update (n @ ''_sp_masa'') (u c lm hm) info)"
          have l: "sortear (n # objs) rs u (c, eqs, info)
                     = sortear objs rs u (c + 2, ?eqs, ?info)"
            using p Some m c pp by (simp add: Let_def)
          have r: "sortear (filter (\<lambda>n. n \<in> fst ` set eqs) (n # objs)) rs u (c, eqs, info)
                     = sortear (filter (\<lambda>n. n \<in> fst ` set eqs) objs) rs u (c + 2, ?eqs, ?info)"
            using True p Some m c pp by (simp add: Let_def)
          show ?thesis
            unfolding l r using Cons.IH [of "c + 2" ?eqs ?info] f by simp
        qed
      qed
    qed
  qed
qed

lemma bucle_mc_filtrar:
  "bucle_mc lista u sim
      (config\<lparr>equipos_objetivo :=
          filter (\<lambda>n. n \<in> fst ` set (equipos sim)) (equipos_objetivo config)\<rparr>) alim is c acc
   = bucle_mc lista u sim config alim is c acc"
proof (induction "is" arbitrary: c acc)
  case Nil
  then show ?case by simp
next
  case (Cons i "is")
  show ?case
    using sortear_filtrar [of "equipos_objetivo config" "rangos config" u c "equipos sim" "[]"]
    by (simp add: Cons.IH split: sum.splits option.splits prod.splits)
qed

subsection \<open>The grade of a flow that no node declares as output\<close>

lemma calcular_marco_aux:
  assumes "k \<notin> set (flujos_salida e)"
  shows "map_of (estado (calcular e fl)) k =
     (if clase_eq e = Celda \<and> flujos_entrada e \<noteq> [] \<and> k = hd (flujos_entrada e)
      then map_option actualizar_contenido_fino (map_of fl k) else map_of fl k)"
proof (cases "clase_eq e")
  case EquipoBase
  then show ?thesis by (simp add: calcular_def)
next
  case Celda
  then show ?thesis using calcular_celda_marco [OF assms] by (simp add: calcular_def)
next
  case Suma
  then show ?thesis using calcular_suma_marco [OF assms] by (simp add: calcular_def)
qed

lemma calcular_marco_ley:
  assumes "k \<notin> set (flujos_salida e)" and "calcular e fl = Inr fl'"
  shows "map_option ley (map_of fl' k) = map_option ley (map_of fl k)"
  using calcular_marco_aux [OF assms(1), of fl] assms(2)
  by (cases "map_of fl k") (auto simp add: actualizar_contenido_fino_def)

lemma ejecutar_equipos_marco_ley:
  "\<forall>e \<in> set es. k \<notin> set (flujos_salida e) \<Longrightarrow> ejecutar_equipos es fl = Inr fl' \<Longrightarrow>
   map_option ley (map_of fl' k) = map_option ley (map_of fl k)"
proof (induction es arbitrary: fl)
  case Nil
  then show ?case by simp
next
  case (Cons e es)
  from Cons.prems(2) obtain fl1 where 1: "calcular e fl = Inr fl1"
    "ejecutar_equipos es fl1 = Inr fl'"
    by (auto split: sum.splits)
  from Cons.IH [OF _ 1(2)] Cons.prems(1) calcular_marco_ley [OF _ 1(1), of k]
  show ?case by simp
qed

lemma iterar_marco_ley:
  "\<forall>e \<in> set (map snd eqs). k \<notin> set (flujos_salida e) \<Longrightarrow> iterar n eqs fl = Inr fl' \<Longrightarrow>
   map_option ley (map_of fl' k) = map_option ley (map_of fl k)"
  using ejecutar_equipos_marco_ley [of "concat (replicate n (map snd eqs))" k fl fl']
  by (simp add: iterar_concat)

subsection \<open>Trials and the grade ceiling\<close>

lemma simular_flujos_res:
  "simular lista sim = Inr (fl', res) \<Longrightarrow>
   flujos_res res = map (\<lambda>(k, v). (k, masa v, ley v)) fl' \<and>
   iterar (nat (iteraciones_convergencia sim)) (equipos sim) (flujos sim) = Inr fl'"
  by (auto simp add: simular_def calcular_resultados_def razon_pct_total razon_simple_total
      split: sum.splits list.splits option.splits prod.splits)

lemma intento_descarta:
  assumes "simular lista sim_temp = Inr (fl', res)"
    and "map_of fl' k = Some f" and "\<not> ley f < 36"
  shows "intento lista sim_temp i info = None"
proof -
  have "(k, f) \<in> set fl'" using assms(2) by (rule map_of_SomeD)
  then have "(k, masa f, ley f) \<in> set (flujos_res res)"
    using simular_flujos_res [OF assms(1)] by force
  then have "\<not> list_all (\<lambda>(k, m, l). l < 36) (flujos_res res)"
    using assms(3) by (force simp add: list_all_iff)
  then show ?thesis using assms(1) by (simp add: intento_def)
qed




subsection \<open>Runs on the single splitter\<close>


lemma simular_ejemplo:
  assumes "lista {1} = [1]"
  shows "simular lista sim_ejemplo = Inr (flujos_ejemplo_final,
     \<lparr>recuperacion = 75, mass_pull = 10, ley_concentrado = 11.25,
      razon_enriquecimiento = 7.5, error_masa = 0, error_cuf = 0,
      flujos_res = [(1, 100, 1.5), (2, 10, 11.25), (3, 90, 0.375 / 90 * 100)]\<rparr>)"
proof -
  let ?sim = "sim_ejemplo\<lparr>flujos := flujos_ejemplo_final\<rparr>"
  have "calcular_resultados lista ?sim = Inr
     \<lparr>recuperacion = 75, mass_pull = 10, ley_concentrado = 11.25,
      razon_enriquecimiento = 7.5, error_masa = 0, error_cuf = 0,
      flujos_res = [(1, 100, 1.5), (2, 10, 11.25), (3, 90, 0.375 / 90 * 100)]\<rparr>"
    using assms
    by (subst calcular_resultados_exito [where id_alim = 1 and resto = "[]"
          and alim = "\<lparr>id_flujo = 1, nombre = [], masa = 100, ley = 1.5, contenido_fino = 1.5\<rparr>"])
       (simp_all add: sim_ejemplo_campos flujos_ejemplo_final_def campo_def Let_def)
  then show ?thesis
    by (simp add: simular_def iterar_ejemplo)
qed

lemma sim_ejemplo_init:
  "Simulador_init (equipos sim_ejemplo) (flujos sim_ejemplo) (Some (flujos_relave sim_ejemplo))
     (Some (iteraciones_convergencia sim_ejemplo)) = sim_ejemplo"
  by (simp add: sim_ejemplo_def establecer_alimentacion_def fijar_alimentacion_def
      Simulador_init_def identificar_flujos_globales_def todas_entradas_def todas_salidas_def
      celda_ejemplo_def iteraciones_por_defecto_def Let_def)

lemma montecarlo_ejemplo_ausente:
  "simular_montecarlo sorted_list_of_set sorteo_min sim_ejemplo config_ausente [] =
     Inr \<lparr>tiene_columnas = True,
          filas = [\<lparr>iteracion = 0, recuperacion_f = 75, mass_pull_f = 10,
                    ley_concentrado_f = 11.25, razon_enriquecimiento_f = 7.5,
                    split_info_f = [],
                    flujos_f = [(1, 100, 1.5), (2, 10, 11.25), (3, 90, 0.375 / 90 * 100)]\<rparr>]\<rparr>"
proof -
  have 1: "map_of (equipos sim_ejemplo) ''Celda X'' = None"
    by (simp add: sim_ejemplo_campos)
  have 2: "intento sorted_list_of_set sim_ejemplo 0 [] =
     Some \<lparr>iteracion = 0, recuperacion_f = 75, mass_pull_f = 10,
                    ley_concentrado_f = 11.25, razon_enriquecimiento_f = 7.5,
                    split_info_f = [],
                    flujos_f = [(1, 100, 1.5), (2, 10, 11.25), (3, 90, 0.375 / 90 * 100)]\<rparr>"
    by (simp add: intento_def simular_ejemplo)
  have 3: "bucle_mc sorted_list_of_set sorteo_min sim_ejemplo config_ausente [] [0] 0 [] =
     Inr [\<lparr>iteracion = 0, recuperacion_f = 75, mass_pull_f = 10,
                    ley_concentrado_f = 11.25, razon_enriquecimiento_f = 7.5,
                    split_info_f = [],
                    flujos_f = [(1, 100, 1.5), (2, 10, 11.25), (3, 90, 0.375 / 90 * 100)]\<rparr>]"
    using 1 by (simp add: config_ausente_def sim_ejemplo_init 2)
  have 4: "[0..<nat (n_iteraciones config_ausente)] = [0]"
    by (simp add: config_ausente_def)
  show ?thesis
    unfolding simular_montecarlo_def 4 3
    by (simp add: config_ausente_def pd_DataFrame_def)
qed





lemma intento_ley_entrada:
  assumes "map_of (flujos sim_temp) k = Some f" and "\<not> ley f < 36"
    and "\<forall>e \<in> set (map snd (equipos sim_temp)). k \<notin> set (flujos_salida e)"
  shows "intento lista sim_temp i info = None"
proof (cases "simular lista sim_temp")
  case (Inl x)
  then show ?thesis by (simp add: intento_def)
next
  case (Inr p)
  obtain fl' res where p: "p = (fl', res)" by (cases p)
  from simular_flujos_res [of lista sim_temp fl' res] Inr p
  have "iterar (nat (iteraciones_convergencia sim_temp)) (equipos sim_temp) (flujos sim_temp)
          = Inr fl'" by simp
  from iterar_marco_ley [OF assms(3) this]
  have "map_option ley (map_of fl' k) = Some (ley f)" using assms(1) by simp
  then obtain f' where "map_of fl' k = Some f'" "ley f' = ley f" by auto
  then show ?thesis
    using intento_descarta [of lista sim_temp fl' res k f' i info] Inr p assms(2) by simp
qed

lemma prueba_ley_alta:
  "\<exists>c' eqs_mc info fl_mc.
     aplicar_alimentacion alimentacion_ley_alta (flujos sim_ejemplo) = Inr fl_mc \<and>
     sortear (equipos_objetivo config_ley_alta) (rangos config_ley_alta) u
       (c, equipos sim_ejemplo, []) = Inr (c', eqs_mc, info) \<and>
     intento lista (Simulador_init eqs_mc fl_mc (Some (flujos_relave sim_ejemplo))
                      (Some (iteraciones_convergencia sim_ejemplo))) i info = None"
proof -
  let ?fl = "[(1, \<lparr>id_flujo = 1, nombre = [], masa = 100, ley = 50, contenido_fino = 50\<rparr>),
      (2, flujo_nuevo 2), (3, flujo_nuevo 3)]"
  let ?eqs = "[(''Celda 1'', celda_ejemplo\<lparr>split_factor := [u c 0.02 0.7, u (c + 1) 0.02 0.9]\<rparr>)]"
  let ?info = "[(''Celda 1_sp_masa'', u c 0.02 0.7), (''Celda 1_sp_cuf'', u (c + 1) 0.02 0.9)]"
  have a: "aplicar_alimentacion alimentacion_ley_alta (flujos sim_ejemplo) = Inr ?fl"
    by (simp add: alimentacion_ley_alta_def sim_ejemplo_campos fijar_alimentacion_def
        actualizar_contenido_fino_def)
  have s: "sortear (equipos_objetivo config_ley_alta) (rangos config_ley_alta) u
       (c, equipos sim_ejemplo, []) = Inr (c + 2, ?eqs, ?info)"
    by (simp add: config_ley_alta_def sim_ejemplo_campos Let_def)
  let ?sim = "Simulador_init ?eqs ?fl (Some (flujos_relave sim_ejemplo))
                      (Some (iteraciones_convergencia sim_ejemplo))"
  have e: "equipos ?sim = ?eqs" and f: "flujos ?sim = ?fl"
    by (simp_all add: Simulador_init_def split: prod.splits)
  have m: "map_of (flujos ?sim) 1
      = Some \<lparr>id_flujo = 1, nombre = [], masa = 100, ley = 50, contenido_fino = 50\<rparr>"
    unfolding f by simp
  have n: "\<forall>e \<in> set (map snd (equipos ?sim)). 1 \<notin> set (flujos_salida e)"
    unfolding e by (simp add: celda_ejemplo_def)
  have "intento lista ?sim i ?info = None"
    by (rule intento_ley_entrada [OF m _ n]) simp
  with a s show ?thesis by blast
qed

lemma bucle_ley_alta:
  "bucle_mc lista u sim_ejemplo config_ley_alta alimentacion_ley_alta is c [] = Inr []"
proof (induction "is" arbitrary: c)
  case Nil
  then show ?case by simp
next
  case (Cons i "is")
  from prueba_ley_alta [of u c lista i] obtain c' eqs_mc info fl_mc where
    "aplicar_alimentacion alimentacion_ley_alta (flujos sim_ejemplo) = Inr fl_mc"
    "sortear (equipos_objetivo config_ley_alta) (rangos config_ley_alta) u
       (c, equipos sim_ejemplo, []) = Inr (c', eqs_mc, info)"
    "intento lista (Simulador_init eqs_mc fl_mc (Some (flujos_relave sim_ejemplo))
                      (Some (iteraciones_convergencia sim_ejemplo))) i info = None"
    by blast
  then show ?case using Cons.IH [of c'] by simp
qed

subsection \<open>What a mixer assigns, and inversion of a successful node\<close>

lemma campo_cong: "map_of s k = map_of t k \<Longrightarrow> campo g s k = campo g t k"
  by (simp add: campo_def)

lemma sumar_entradas_exito:
  assumes "io \<notin> set ks" and "\<forall>k \<in> set ks. map_of fl k \<noteq> None" and "map_of fl io = Some b"
  shows "\<exists>fl'. sumar_entradas io ks fl = Inr fl' \<and> map fst fl' = map fst fl \<and>
           map_of fl' = (map_of fl)
             (io \<mapsto> b\<lparr>masa := masa b + sum_list (map (campo masa fl) ks),
                       contenido_fino := contenido_fino b
                          + sum_list (map (campo contenido_fino fl) ks)\<rparr>)"
  using assms
proof (induction ks arbitrary: fl b)
  case Nil
  then show ?case by (auto simp add: fun_eq_iff)
next
  case (Cons k ks)
  let ?fl1 = "AList.map_entry io (\<lambda>f. f\<lparr>masa := masa f + campo masa fl k\<rparr>) fl"
  let ?fl2 = "AList.map_entry io
      (\<lambda>f. f\<lparr>contenido_fino := contenido_fino f + campo contenido_fino ?fl1 k\<rparr>) ?fl1"
  let ?b2 = "b\<lparr>masa := masa b + campo masa fl k,
               contenido_fino := contenido_fino b + campo contenido_fino fl k\<rparr>"
  from Cons.prems have ne: "k \<noteq> io" and nin: "io \<notin> set ks" by auto
  have c1: "campo contenido_fino ?fl1 k = campo contenido_fino fl k"
    using ne by (simp add: campo_map_entry_otro)
  have m2: "map_of ?fl2 = (map_of fl)(io \<mapsto> ?b2)"
    using Cons.prems(3) by (auto simp add: fun_eq_iff map_of_map_entry c1)
  have p2: "\<forall>k \<in> set ks. map_of ?fl2 k \<noteq> None"
    using Cons.prems(2) by simp
  have b2: "map_of ?fl2 io = Some ?b2" using m2 by simp
  from Cons.IH [OF nin p2 b2] obtain fl' where
    r: "sumar_entradas io ks ?fl2 = Inr fl'" and k: "map fst fl' = map fst ?fl2"
    and m: "map_of fl' = (map_of ?fl2)
             (io \<mapsto> ?b2\<lparr>masa := masa ?b2 + sum_list (map (campo masa ?fl2) ks),
                       contenido_fino := contenido_fino ?b2
                          + sum_list (map (campo contenido_fino ?fl2) ks)\<rparr>)"
    by blast
  have cg: "map (campo g ?fl2) ks = map (campo g fl) ks" for g
  proof (rule map_cong [OF refl])
    fix x assume "x \<in> set ks"
    then have "x \<noteq> io" using nin by auto
    then show "campo g ?fl2 x = campo g fl x" by (simp add: campo_map_entry_otro)
  qed
  have "sumar_entradas io (k # ks) fl = Inr fl'"
    using Cons.prems(2) r by (simp add: Let_def)
  moreover have "map fst fl' = map fst fl"
    using k by (simp add: map_fst_map_entry)
  moreover have "map_of fl' = (map_of fl)
             (io \<mapsto> b\<lparr>masa := masa b + sum_list (map (campo masa fl) (k # ks)),
                       contenido_fino := contenido_fino b
                          + sum_list (map (campo contenido_fino fl) (k # ks))\<rparr>)"
    unfolding m m2 cg by (simp add: add.assoc)
  ultimately show ?case by blast
qed

lemma calcular_suma_exito:
  assumes "flujos_salida e = io # sal" and "map_of fl io = Some b"
    and "io \<notin> set (flujos_entrada e)"
    and "\<forall>k \<in> set (flujos_entrada e). map_of fl k \<noteq> None"
  shows "\<exists>fl'. calcular_suma e fl = Inr fl' \<and> map fst fl' = map fst fl \<and>
           map_of fl' = (map_of fl)
             (io \<mapsto> poner_ley (b\<lparr>masa := sum_list (map (campo masa fl) (flujos_entrada e)),
                contenido_fino := sum_list (map (campo contenido_fino fl) (flujos_entrada e))\<rparr>))"
proof -
  let ?fl2 = "AList.map_entry io (\<lambda>f. f\<lparr>contenido_fino := 0\<rparr>)
                (AList.map_entry io (\<lambda>f. f\<lparr>masa := 0\<rparr>) fl)"
  let ?b2 = "b\<lparr>masa := 0, contenido_fino := 0\<rparr>"
  have m2: "map_of ?fl2 = (map_of fl)(io \<mapsto> ?b2)"
    using assms(2) by (auto simp add: fun_eq_iff map_of_map_entry)
  have p2: "\<forall>k \<in> set (flujos_entrada e). map_of ?fl2 k \<noteq> None"
    using assms(4) by simp
  have b2: "map_of ?fl2 io = Some ?b2" using m2 by simp
  from sumar_entradas_exito [OF assms(3) p2 b2] obtain fl3 where
    r: "sumar_entradas io (flujos_entrada e) ?fl2 = Inr fl3"
    and k: "map fst fl3 = map fst ?fl2"
    and m: "map_of fl3 = (map_of ?fl2)
             (io \<mapsto> ?b2\<lparr>masa := masa ?b2 + sum_list (map (campo masa ?fl2) (flujos_entrada e)),
                       contenido_fino := contenido_fino ?b2
                          + sum_list (map (campo contenido_fino ?fl2) (flujos_entrada e))\<rparr>)"
    by blast
  have cg: "map (campo g ?fl2) (flujos_entrada e) = map (campo g fl) (flujos_entrada e)" for g
  proof (rule map_cong [OF refl])
    fix x assume "x \<in> set (flujos_entrada e)"
    then have "x \<noteq> io" using assms(3) by auto
    then show "campo g ?fl2 x = campo g fl x" by (simp add: campo_map_entry_otro)
  qed
  have p3: "map_of fl3 io \<noteq> None" using m by simp
  have "calcular_suma e fl = Inr (AList.map_entry io poner_ley fl3)"
    using assms(1,2) r p3 by (simp add: calcular_suma_def Let_def actualizar_ley_en_poner)
  moreover have "map fst (AList.map_entry io poner_ley fl3) = map fst fl"
    using k by (simp add: map_fst_map_entry)
  moreover have "map_of (AList.map_entry io poner_ley fl3) = (map_of fl)
             (io \<mapsto> poner_ley (b\<lparr>masa := sum_list (map (campo masa fl) (flujos_entrada e)),
                contenido_fino := sum_list (map (campo contenido_fino fl) (flujos_entrada e))\<rparr>))"
    unfolding map_of_map_entry m m2 cg by (auto simp add: fun_eq_iff)
  ultimately show ?thesis by blast
qed

lemma sumar_entradas_inv:
  "sumar_entradas io ks fl = Inr fl' \<Longrightarrow> \<forall>k \<in> set ks. map_of fl k \<noteq> None"
proof (induction ks arbitrary: fl)
  case Nil
  then show ?case by simp
next
  case (Cons k ks)
  from Cons.prems have p: "map_of fl k \<noteq> None" by (auto split: if_splits)
  let ?fl1 = "AList.map_entry io (\<lambda>f. f\<lparr>masa := masa f + campo masa fl k\<rparr>) fl"
  let ?fl2 = "AList.map_entry io
      (\<lambda>f. f\<lparr>contenido_fino := contenido_fino f + campo contenido_fino ?fl1 k\<rparr>) ?fl1"
  from Cons.prems p have "sumar_entradas io ks ?fl2 = Inr fl'"
    by (simp add: Let_def split: if_splits)
  from Cons.IH [OF this] have "\<forall>k \<in> set ks. map_of fl k \<noteq> None" by simp
  with p show ?case by simp
qed

lemma calcular_suma_inv:
  assumes "calcular_suma e fl = Inr fl'"
  shows "\<exists>io sal b. flujos_salida e = io # sal \<and> map_of fl io = Some b \<and>
           (\<forall>k \<in> set (flujos_entrada e). map_of fl k \<noteq> None)"
proof (cases "flujos_salida e")
  case Nil
  then show ?thesis using assms by (simp add: calcular_suma_def)
next
  case (Cons io sal)
  show ?thesis
  proof (cases "map_of fl io")
    case None
    then show ?thesis using assms Cons by (simp add: calcular_suma_def)
  next
    case (Some b)
    let ?fl2 = "AList.map_entry io (\<lambda>f. f\<lparr>contenido_fino := 0\<rparr>)
                (AList.map_entry io (\<lambda>f. f\<lparr>masa := 0\<rparr>) fl)"
    from assms Cons Some obtain fl3 where "sumar_entradas io (flujos_entrada e) ?fl2 = Inr fl3"
      by (auto simp add: calcular_suma_def Let_def split: sum.splits)
    from sumar_entradas_inv [OF this] have "\<forall>k \<in> set (flujos_entrada e). map_of fl k \<noteq> None"
      by simp
    with Cons Some show ?thesis by blast
  qed
qed

lemma calcular_celda_inv:
  assumes "calcular_celda e fl = Inr fl'"
  shows "\<exists>ie ents ic ir sal sm sc sps a b c.
           flujos_entrada e = ie # ents \<and> flujos_salida e = ic # ir # sal \<and>
           split_factor e = sm # sc # sps \<and>
           map_of fl ie = Some a \<and> map_of fl ic = Some b \<and> map_of fl ir = Some c"
proof -
  obtain ie ents where 1: "flujos_entrada e = ie # ents"
    using assms by (cases "flujos_entrada e") (auto simp add: calcular_celda_def)
  obtain a where 2: "map_of fl ie = Some a"
    using assms 1 by (cases "map_of fl ie") (auto simp add: calcular_celda_def)
  obtain ic sal0 where 3: "flujos_salida e = ic # sal0"
    using assms 1 2 by (cases "flujos_salida e") (auto simp add: calcular_celda_def Let_def)
  obtain b where 4: "map_of fl ic = Some b"
    using assms 1 2 3 by (cases "map_of fl ic") (auto simp add: calcular_celda_def Let_def)
  obtain ir sal where 5: "sal0 = ir # sal"
    using assms 1 2 3 4 by (cases sal0) (auto simp add: calcular_celda_def Let_def)
  obtain c where 6: "map_of fl ir = Some c"
    using assms 1 2 3 4 5 by (cases "map_of fl ir") (auto simp add: calcular_celda_def Let_def)
  obtain sm sps0 where 7: "split_factor e = sm # sps0"
    using assms 1 2 3 4 5 6
    by (cases "split_factor e") (auto simp add: calcular_celda_def Let_def)
  obtain sc sps where 8: "sps0 = sc # sps"
    using assms 1 2 3 4 5 6 7 by (cases sps0) (auto simp add: calcular_celda_def Let_def)
  show ?thesis using 1 2 3 4 5 6 7 8 by blast
qed

subsection \<open>Stores that agree\<close>

lemma rel_flujos_refl: "rel_flujos X m m"
  by (simp add: rel_flujos_def mismo_rotulo_def option.rel_refl)

lemma rel_flujos_sym: "rel_flujos X m m' \<Longrightarrow> rel_flujos X m' m"
  unfolding rel_flujos_def mismo_rotulo_def
proof
  fix k
  assume a: "\<forall>k. rel_option (\<lambda>f g. (id_flujo f = id_flujo g \<and> nombre f = nombre g)
                 \<and> (k \<notin> X \<longrightarrow> f = g)) (m k) (m' k)"
  from a [rule_format, of k]
  show "rel_option (\<lambda>f g. (id_flujo f = id_flujo g \<and> nombre f = nombre g)
                 \<and> (k \<notin> X \<longrightarrow> f = g)) (m' k) (m k)"
    by (cases "m k"; cases "m' k") auto
qed

lemma rel_flujos_trans:
  "rel_flujos X m1 m2 \<Longrightarrow> rel_flujos X m2 m3 \<Longrightarrow> rel_flujos X m1 m3"
  unfolding rel_flujos_def mismo_rotulo_def
proof
  fix k
  assume a: "\<forall>k. rel_option (\<lambda>f g. (id_flujo f = id_flujo g \<and> nombre f = nombre g)
                 \<and> (k \<notin> X \<longrightarrow> f = g)) (m1 k) (m2 k)"
    and b: "\<forall>k. rel_option (\<lambda>f g. (id_flujo f = id_flujo g \<and> nombre f = nombre g)
                 \<and> (k \<notin> X \<longrightarrow> f = g)) (m2 k) (m3 k)"
  from a [rule_format, of k] b [rule_format, of k]
  show "rel_option (\<lambda>f g. (id_flujo f = id_flujo g \<and> nombre f = nombre g)
                 \<and> (k \<notin> X \<longrightarrow> f = g)) (m1 k) (m3 k)"
    by (cases "m1 k"; cases "m2 k"; cases "m3 k") auto
qed

lemma rel_flujos_mono: "rel_flujos X m m' \<Longrightarrow> X \<subseteq> Y \<Longrightarrow> rel_flujos Y m m'"
  unfolding rel_flujos_def
proof
  fix k
  assume a: "\<forall>k. rel_option (\<lambda>f g. mismo_rotulo f g \<and> (k \<notin> X \<longrightarrow> f = g)) (m k) (m' k)"
    and s: "X \<subseteq> Y"
  from a [rule_format, of k] s
  show "rel_option (\<lambda>f g. mismo_rotulo f g \<and> (k \<notin> Y \<longrightarrow> f = g)) (m k) (m' k)"
    by (cases "m k"; cases "m' k") auto
qed

lemma rel_flujos_upd:
  "rel_flujos X m m' \<Longrightarrow> rel_flujos (X - {k}) (m(k \<mapsto> v)) (m'(k \<mapsto> v))"
  unfolding rel_flujos_def
proof
  fix j
  assume a: "\<forall>k. rel_option (\<lambda>f g. mismo_rotulo f g \<and> (k \<notin> X \<longrightarrow> f = g)) (m k) (m' k)"
  from a [rule_format, of j]
  show "rel_option (\<lambda>f g. mismo_rotulo f g \<and> (j \<notin> X - {k} \<longrightarrow> f = g))
          ((m(k \<mapsto> v)) j) ((m'(k \<mapsto> v)) j)"
    by (cases "m j"; cases "m' j") (auto simp add: mismo_rotulo_def)
qed

lemma rel_flujos_upd_izq:
  "rel_flujos X m m' \<Longrightarrow> m' k = Some v0 \<Longrightarrow> mismo_rotulo v v0 \<Longrightarrow> (k \<notin> X \<longrightarrow> v = v0) \<Longrightarrow>
   rel_flujos X (m(k \<mapsto> v)) m'"
  unfolding rel_flujos_def
proof
  fix j
  assume a: "\<forall>k. rel_option (\<lambda>f g. mismo_rotulo f g \<and> (k \<notin> X \<longrightarrow> f = g)) (m k) (m' k)"
    and b: "m' k = Some v0" "mismo_rotulo v v0" "k \<notin> X \<longrightarrow> v = v0"
  from a [rule_format, of j] b
  show "rel_option (\<lambda>f g. mismo_rotulo f g \<and> (j \<notin> X \<longrightarrow> f = g)) ((m(k \<mapsto> v)) j) (m' j)"
    by (cases "m j"; cases "m' j") auto
qed

lemma rel_flujos_Some:
  "rel_flujos X m m' \<Longrightarrow> m k = Some f \<Longrightarrow>
   \<exists>g. m' k = Some g \<and> mismo_rotulo f g \<and> (k \<notin> X \<longrightarrow> f = g)"
  unfolding rel_flujos_def
proof -
  assume a: "\<forall>k. rel_option (\<lambda>f g. mismo_rotulo f g \<and> (k \<notin> X \<longrightarrow> f = g)) (m k) (m' k)"
    and b: "m k = Some f"
  from a [rule_format, of k] b
  show "\<exists>g. m' k = Some g \<and> mismo_rotulo f g \<and> (k \<notin> X \<longrightarrow> f = g)"
    by (cases "m' k") auto
qed

lemma rel_flujos_vacio: "rel_flujos {} m m' \<Longrightarrow> m = m'"
proof
  fix k
  assume "rel_flujos {} m m'"
  then have "rel_option (\<lambda>f g. mismo_rotulo f g \<and> (k \<notin> {} \<longrightarrow> f = g)) (m k) (m' k)"
    unfolding rel_flujos_def by blast
  then show "m k = m' k"
    by (cases "m k"; cases "m' k") auto
qed

lemma rotulo_salida:
  "mismo_rotulo b b' \<Longrightarrow>
   poner_ley (b\<lparr>masa := M, contenido_fino := C\<rparr>) = poner_ley (b'\<lparr>masa := M, contenido_fino := C\<rparr>)"
  by (cases b; cases b') (simp add: mismo_rotulo_def poner_ley_def)

lemma rotulo_poner_ley: "mismo_rotulo (poner_ley (b\<lparr>masa := M, contenido_fino := C\<rparr>)) b"
  by (simp add: mismo_rotulo_def poner_ley_def)

lemma rotulo_actualizar: "mismo_rotulo (actualizar_contenido_fino a) a"
  by (simp add: mismo_rotulo_def actualizar_contenido_fino_def)

lemma consistente_actualizar: "consistente a \<Longrightarrow> actualizar_contenido_fino a = a"
  by (cases a) (simp add: consistente_def actualizar_contenido_fino_def)

lemma alist_igual:
  "map fst s = map fst t \<Longrightarrow> distinct (map fst s) \<Longrightarrow> map_of s = map_of t \<Longrightarrow> s = t"
proof (induction s arbitrary: t)
  case Nil
  then show ?case by simp
next
  case (Cons p s)
  obtain kp vp where p: "p = (kp, vp)" by (cases p)
  from Cons.prems(1) obtain q t' where t: "t = q # t'" by (cases t) auto
  obtain kq vq where q: "q = (kq, vq)" by (cases q)
  from Cons.prems(1) have k: "kp = kq" "map fst s = map fst t'"
    unfolding t p q by simp_all
  from Cons.prems(2) have d: "kp \<notin> fst ` set s" "distinct (map fst s)"
    unfolding p by simp_all
  have eq: "map_of ((kp, vp) # s) j = map_of ((kq, vq) # t') j" for j
    using Cons.prems(3) unfolding t p q by (rule fun_cong)
  have v: "vp = vq" using eq [of kp] k(1) by simp
  have "map_of s j = map_of t' j" for j
  proof (cases "j = kp")
    case True
    have "map_of s kp = None" using d(1) by (simp add: map_of_eq_None_iff)
    moreover have "kp \<notin> fst ` set t'"
      using d(1) k(2) by (metis list.set_map)
    then have "map_of t' kp = None" by (simp add: map_of_eq_None_iff)
    ultimately show ?thesis using True by simp
  next
    case False
    then show ?thesis using eq [of j] k(1) by simp
  qed
  then have "map_of s = map_of t'" by (rule ext)
  from Cons.IH [OF k(2) d(2) this] have "s = t'" .
  then show ?case unfolding t p q using k(1) v by simp
qed

lemma rel_flujos_campo:
  "rel_flujos X m m' \<Longrightarrow> m = map_of s \<Longrightarrow> m' = map_of t \<Longrightarrow> k \<notin> X \<Longrightarrow>
   campo g s k = campo g t k"
proof -
  assume r: "rel_flujos X m m'" and e: "m = map_of s" "m' = map_of t" and k: "k \<notin> X"
  have "map_of s k = map_of t k"
  proof (cases "map_of s k")
    case None
    from r [unfolded rel_flujos_def, rule_format, of k] None e
    show ?thesis by (cases "map_of t k") auto
  next
    case (Some f)
    from rel_flujos_Some [OF r, of k f] Some e k show ?thesis by auto
  qed
  then show ?thesis by (rule campo_cong)
qed

lemma rel_flujos_None:
  "rel_flujos X m m' \<Longrightarrow> (m k = None) = (m' k = None)"
proof -
  assume r: "rel_flujos X m m'"
  from r [unfolded rel_flujos_def, rule_format, of k]
  show ?thesis by (cases "m k"; cases "m' k") auto
qed

text \<open>
  One node on two stores that agree outside \<open>X\<close>: the node returns on both, and
  the stores then agree also on what the node assigned.
\<close>

lemma paso_celda_coinciden:
  assumes R: "coinciden X s t"
    and ent: "set (flujos_entrada e) \<inter> X = {}"
    and self: "set (flujos_entrada e) \<inter> set (flujos_salida e) = {}"
    and ok: "calcular_celda e s = Inr s'"
  shows "\<exists>t'. calcular_celda e t = Inr t' \<and>
           coinciden (X - set (take 2 (flujos_salida e))) s' t'"
proof -
  from calcular_celda_inv [OF ok] obtain ie ents ic ir sal sm sc sps a b c where
    sh: "flujos_entrada e = ie # ents" "flujos_salida e = ic # ir # sal"
        "split_factor e = sm # sc # sps"
    and pr: "map_of s ie = Some a" "map_of s ic = Some b" "map_of s ir = Some c"
    by blast
  from self sh have d: "ie \<noteq> ic" "ie \<noteq> ir" by auto
  from ent sh have iX: "ie \<notin> X" by auto
  from R have keys: "map fst s = map fst t" and r: "rel_flujos X (map_of s) (map_of t)"
    by (simp_all add: coinciden_def)
  from rel_flujos_Some [OF r pr(1)] iX have ta: "map_of t ie = Some a" by auto
  from rel_flujos_Some [OF r pr(2)] obtain b' where
    tb: "map_of t ic = Some b'" "mismo_rotulo b b'" by blast
  from rel_flujos_Some [OF r pr(3)] obtain c' where
    tc: "map_of t ir = Some c'" "mismo_rotulo c c'" by blast
  let ?A = "actualizar_contenido_fino a"
  let ?C = "poner_ley (b\<lparr>masa := masa a * sm,
                          contenido_fino := masa a * ley a / 100 * sc\<rparr>)"
  let ?R = "poner_ley (c\<lparr>masa := masa a * (1 - sm),
                          contenido_fino := masa a * ley a / 100 * (1 - sc)\<rparr>)"
  from calcular_celda_exito [OF sh pr d] ok
  have ms: "map fst s' = map fst s" "map_of s' = (map_of s)(ie \<mapsto> ?A, ic \<mapsto> ?C, ir \<mapsto> ?R)"
    by auto
  from calcular_celda_exito [OF sh ta tb(1) tc(1) d] obtain t' where
    ot: "calcular_celda e t = Inr t'" and kt: "map fst t' = map fst t"
    and mt0: "map_of t' = (map_of t)
             (ie \<mapsto> ?A,
              ic \<mapsto> poner_ley (b'\<lparr>masa := masa a * sm,
                                 contenido_fino := masa a * ley a / 100 * sc\<rparr>),
              ir \<mapsto> poner_ley (c'\<lparr>masa := masa a * (1 - sm),
                                 contenido_fino := masa a * ley a / 100 * (1 - sc)\<rparr>))"
    by blast
  have mt: "map_of t' = (map_of t)(ie \<mapsto> ?A, ic \<mapsto> ?C, ir \<mapsto> ?R)"
    unfolding mt0 using rotulo_salida [OF tb(2)] rotulo_salida [OF tc(2)] by simp
  have "rel_flujos (X - {ie} - {ic} - {ir}) (map_of s') (map_of t')"
    unfolding ms(2) mt
    by (intro rel_flujos_upd r)
  then have "rel_flujos (X - set (take 2 (flujos_salida e))) (map_of s') (map_of t')"
    using sh by (auto elim: rel_flujos_mono)
  then have "coinciden (X - set (take 2 (flujos_salida e))) s' t'"
    using ms(1) kt keys by (simp add: coinciden_def)
  with ot show ?thesis by blast
qed

lemma paso_suma_coinciden:
  assumes R: "coinciden X s t"
    and ent: "set (flujos_entrada e) \<inter> X = {}"
    and self: "set (flujos_entrada e) \<inter> set (flujos_salida e) = {}"
    and ok: "calcular_suma e s = Inr s'"
  shows "\<exists>t'. calcular_suma e t = Inr t' \<and>
           coinciden (X - set (take 1 (flujos_salida e))) s' t'"
proof -
  from calcular_suma_inv [OF ok] obtain io sal b where
    sh: "flujos_salida e = io # sal" and pb: "map_of s io = Some b"
    and pk: "\<forall>k \<in> set (flujos_entrada e). map_of s k \<noteq> None"
    by blast
  from self sh have d: "io \<notin> set (flujos_entrada e)" by auto
  from R have keys: "map fst s = map fst t" and r: "rel_flujos X (map_of s) (map_of t)"
    by (simp_all add: coinciden_def)
  from rel_flujos_Some [OF r pb] obtain b' where
    tb: "map_of t io = Some b'" "mismo_rotulo b b'" by blast
  have tk: "\<forall>k \<in> set (flujos_entrada e). map_of t k \<noteq> None"
    using pk rel_flujos_None [OF r] by blast
  have cg: "map (campo g s) (flujos_entrada e) = map (campo g t) (flujos_entrada e)" for g
  proof (rule map_cong [OF refl])
    fix x assume "x \<in> set (flujos_entrada e)"
    then have "x \<notin> X" using ent by auto
    from rel_flujos_campo [OF r refl refl this] show "campo g s x = campo g t x" .
  qed
  let ?V = "poner_ley (b\<lparr>masa := sum_list (map (campo masa s) (flujos_entrada e)),
      contenido_fino := sum_list (map (campo contenido_fino s) (flujos_entrada e))\<rparr>)"
  from calcular_suma_exito [OF sh pb d pk] ok
  have ms: "map fst s' = map fst s" "map_of s' = (map_of s)(io \<mapsto> ?V)"
    by auto
  from calcular_suma_exito [OF sh tb(1) d tk] obtain t' where
    ot: "calcular_suma e t = Inr t'" and kt: "map fst t' = map fst t"
    and mt0: "map_of t' = (map_of t)
             (io \<mapsto> poner_ley (b'\<lparr>masa := sum_list (map (campo masa t) (flujos_entrada e)),
                contenido_fino := sum_list (map (campo contenido_fino t) (flujos_entrada e))\<rparr>))"
    by blast
  have mt: "map_of t' = (map_of t)(io \<mapsto> ?V)"
    unfolding mt0 cg [symmetric] using rotulo_salida [OF tb(2)] by simp
  have "rel_flujos (X - {io}) (map_of s') (map_of t')"
    unfolding ms(2) mt by (intro rel_flujos_upd r)
  then have "rel_flujos (X - set (take 1 (flujos_salida e))) (map_of s') (map_of t')"
    using sh by simp
  then have "coinciden (X - set (take 1 (flujos_salida e))) s' t'"
    using ms(1) kt keys by (simp add: coinciden_def)
  with ot show ?thesis by blast
qed

lemma paso_coinciden:
  assumes "coinciden X s t"
    and "set (flujos_entrada e) \<inter> X = {}"
    and "set (flujos_entrada e) \<inter> set (flujos_salida e) = {}"
    and "calcular e s = Inr s'"
  shows "\<exists>t'. calcular e t = Inr t' \<and> coinciden (X - asignados e) s' t'"
proof (cases "clase_eq e")
  case EquipoBase
  then show ?thesis using assms(4) by (simp add: calcular_def)
next
  case Celda
  then show ?thesis
    using paso_celda_coinciden [OF assms(1,2,3), of s'] assms(4)
    by (simp add: calcular_def asignados_def)
next
  case Suma
  then show ?thesis
    using paso_suma_coinciden [OF assms(1,2,3), of s'] assms(4)
    by (simp add: calcular_def asignados_def)
qed

lemma coinciden_sym: "coinciden X s t \<Longrightarrow> coinciden X t s"
  by (simp add: coinciden_def rel_flujos_sym)

lemma coinciden_trans: "coinciden X s t \<Longrightarrow> coinciden X t u \<Longrightarrow> coinciden X s u"
  using rel_flujos_trans [of X "map_of s" "map_of t" "map_of u"]
  by (simp add: coinciden_def)

lemma coinciden_mono: "coinciden X s t \<Longrightarrow> X \<subseteq> Y \<Longrightarrow> coinciden Y s t"
  using rel_flujos_mono [of X "map_of s" "map_of t" Y]
  by (simp add: coinciden_def)

lemma asignados_salida: "asignados e \<subseteq> set (flujos_salida e)"
  by (cases "clase_eq e") (auto simp add: asignados_def dest: in_set_takeD)

text \<open>
  One node against the store it started from: outside the assigned flows nothing
  changes, as long as the flows that no node assigns are consistent.
\<close>

lemma paso_celda_marco:
  assumes self: "set (flujos_entrada e) \<inter> set (flujos_salida e) = {}"
    and ok: "calcular_celda e s = Inr s'"
    and cons: "\<forall>k f. map_of s k = Some f \<and> k \<notin> A \<longrightarrow> consistente f"
    and sub: "set (take 2 (flujos_salida e)) \<subseteq> A"
  shows "coinciden A s' s"
proof -
  from calcular_celda_inv [OF ok] obtain ie ents ic ir sal sm sc sps a b c where
    sh: "flujos_entrada e = ie # ents" "flujos_salida e = ic # ir # sal"
        "split_factor e = sm # sc # sps"
    and pr: "map_of s ie = Some a" "map_of s ic = Some b" "map_of s ir = Some c"
    by blast
  from self sh have d: "ie \<noteq> ic" "ie \<noteq> ir" by auto
  from sub sh have inA: "ic \<in> A" "ir \<in> A" by auto
  let ?A = "actualizar_contenido_fino a"
  let ?C = "poner_ley (b\<lparr>masa := masa a * sm,
                          contenido_fino := masa a * ley a / 100 * sc\<rparr>)"
  let ?R = "poner_ley (c\<lparr>masa := masa a * (1 - sm),
                          contenido_fino := masa a * ley a / 100 * (1 - sc)\<rparr>)"
  from calcular_celda_exito [OF sh pr d] ok
  have ms: "map fst s' = map fst s" "map_of s' = (map_of s)(ie \<mapsto> ?A, ic \<mapsto> ?C, ir \<mapsto> ?R)"
    by auto
  have ca: "ie \<notin> A \<longrightarrow> ?A = a"
    using cons pr(1) consistente_actualizar by blast
  have 1: "rel_flujos A ((map_of s)(ie \<mapsto> ?A)) (map_of s)"
    using rel_flujos_upd_izq [of A "map_of s" "map_of s" ie a ?A]
      rel_flujos_refl [of A "map_of s"] pr(1) rotulo_actualizar [of a] ca by blast
  have 2: "rel_flujos A ((map_of s)(ie \<mapsto> ?A, ic \<mapsto> ?C)) (map_of s)"
    using rel_flujos_upd_izq [of A "(map_of s)(ie \<mapsto> ?A)" "map_of s" ic b ?C]
      1 pr(2) rotulo_poner_ley [where b = b] inA by blast
  have 3: "rel_flujos A ((map_of s)(ie \<mapsto> ?A, ic \<mapsto> ?C, ir \<mapsto> ?R)) (map_of s)"
    using rel_flujos_upd_izq [of A "(map_of s)(ie \<mapsto> ?A, ic \<mapsto> ?C)" "map_of s" ir c ?R]
      2 pr(3) rotulo_poner_ley [where b = c] inA by blast
  show ?thesis using 3 ms by (simp add: coinciden_def)
qed

lemma paso_suma_marco:
  assumes self: "set (flujos_entrada e) \<inter> set (flujos_salida e) = {}"
    and ok: "calcular_suma e s = Inr s'"
    and sub: "set (take 1 (flujos_salida e)) \<subseteq> A"
  shows "coinciden A s' s"
proof -
  from calcular_suma_inv [OF ok] obtain io sal b where
    sh: "flujos_salida e = io # sal" and pb: "map_of s io = Some b"
    and pk: "\<forall>k \<in> set (flujos_entrada e). map_of s k \<noteq> None"
    by blast
  from self sh have d: "io \<notin> set (flujos_entrada e)" by auto
  from sub sh have inA: "io \<in> A" by auto
  let ?V = "poner_ley (b\<lparr>masa := sum_list (map (campo masa s) (flujos_entrada e)),
      contenido_fino := sum_list (map (campo contenido_fino s) (flujos_entrada e))\<rparr>)"
  from calcular_suma_exito [OF sh pb d pk] ok
  have ms: "map fst s' = map fst s" "map_of s' = (map_of s)(io \<mapsto> ?V)"
    by auto
  have "rel_flujos A ((map_of s)(io \<mapsto> ?V)) (map_of s)"
    using rel_flujos_upd_izq [of A "map_of s" "map_of s" io b ?V]
      rel_flujos_refl [of A "map_of s"] pb rotulo_poner_ley [where b = b] inA by blast
  then show ?thesis using ms by (simp add: coinciden_def)
qed

lemma paso_marco:
  assumes "set (flujos_entrada e) \<inter> set (flujos_salida e) = {}"
    and "calcular e s = Inr s'"
    and "\<forall>k f. map_of s k = Some f \<and> k \<notin> A \<longrightarrow> consistente f"
    and "asignados e \<subseteq> A"
  shows "coinciden A s' s"
proof (cases "clase_eq e")
  case EquipoBase
  then show ?thesis using assms(2) by (simp add: calcular_def)
next
  case Celda
  then show ?thesis
    using paso_celda_marco [OF assms(1) _ assms(3), of s'] assms(2,4)
    by (simp add: calcular_def asignados_def)
next
  case Suma
  then show ?thesis
    using paso_suma_marco [OF assms(1), of s s' A] assms(2,4)
    by (simp add: calcular_def asignados_def)
qed

lemma sin_reciclo_Cons:
  "sin_reciclo (e # es) \<Longrightarrow>
   set (flujos_entrada e) \<inter> set (flujos_salida e) = {} \<and>
   set (flujos_entrada e) \<inter> \<Union>(asignados ` set (e # es)) = {} \<and> sin_reciclo es"
proof -
  assume a: "sin_reciclo (e # es)"
  have "k \<notin> \<Union>(asignados ` set (e # es))" if "k \<in> set (flujos_entrada e)" for k
  proof
    assume "k \<in> \<Union>(asignados ` set (e # es))"
    then obtain e' where "e' \<in> set (e # es)" "k \<in> asignados e'" by blast
    then have "e' \<in> set (e # es)" "k \<in> set (flujos_salida e')"
      using asignados_salida by blast+
    then show False using a that by auto
  qed
  then show ?thesis using a by auto
qed

lemma pasada_marco:
  "sin_reciclo es \<Longrightarrow> ejecutar_equipos es s = Inr s' \<Longrightarrow>
   \<forall>k f. map_of s k = Some f \<and> k \<notin> A \<longrightarrow> consistente f \<Longrightarrow>
   \<forall>e \<in> set es. asignados e \<subseteq> A \<Longrightarrow> coinciden A s' s"
proof (induction es arbitrary: s)
  case Nil
  then show ?case by (simp add: coinciden_def rel_flujos_refl)
next
  case (Cons e es)
  from Cons.prems(2) obtain s1 where 1: "calcular e s = Inr s1"
    "ejecutar_equipos es s1 = Inr s'"
    by (auto split: sum.splits)
  from sin_reciclo_Cons [OF Cons.prems(1)]
  have self: "set (flujos_entrada e) \<inter> set (flujos_salida e) = {}" and sr: "sin_reciclo es"
    by simp_all
  have c1: "coinciden A s1 s"
    using paso_marco [OF self 1(1) Cons.prems(3)] Cons.prems(4) by simp
  have cons1: "\<forall>k f. map_of s1 k = Some f \<and> k \<notin> A \<longrightarrow> consistente f"
  proof (intro allI impI)
    fix k f assume h: "map_of s1 k = Some f \<and> k \<notin> A"
    from c1 have "rel_flujos A (map_of s1) (map_of s)" by (simp add: coinciden_def)
    from rel_flujos_Some [OF this, of k f] h have "map_of s k = Some f" by auto
    with Cons.prems(3) h show "consistente f" by blast
  qed
  have "coinciden A s' s1"
    using Cons.IH [OF sr 1(2) cons1] Cons.prems(4) by simp
  then show ?case using c1 by (rule coinciden_trans)
qed

lemma pasada_coinciden:
  "sin_reciclo es \<Longrightarrow> coinciden X s t \<Longrightarrow> X \<subseteq> \<Union>(asignados ` set es) \<Longrightarrow>
   ejecutar_equipos es s = Inr s' \<Longrightarrow>
   \<exists>t'. ejecutar_equipos es t = Inr t' \<and> coinciden {} s' t'"
proof (induction es arbitrary: s t X)
  case Nil
  then show ?case by simp
next
  case (Cons e es)
  from Cons.prems(4) obtain s1 where 1: "calcular e s = Inr s1"
    "ejecutar_equipos es s1 = Inr s'"
    by (auto split: sum.splits)
  from sin_reciclo_Cons [OF Cons.prems(1)]
  have self: "set (flujos_entrada e) \<inter> set (flujos_salida e) = {}"
    and ent: "set (flujos_entrada e) \<inter> \<Union>(asignados ` set (e # es)) = {}"
    and sr: "sin_reciclo es"
    by simp_all
  from ent Cons.prems(3) have entX: "set (flujos_entrada e) \<inter> X = {}" by blast
  from paso_coinciden [OF Cons.prems(2) entX self 1(1)] obtain t1 where
    t1: "calcular e t = Inr t1" "coinciden (X - asignados e) s1 t1" by blast
  have "X - asignados e \<subseteq> \<Union>(asignados ` set es)"
    using Cons.prems(3) by auto
  from Cons.IH [OF sr t1(2) this 1(2)] obtain t' where
    "ejecutar_equipos es t1 = Inr t'" "coinciden {} s' t'" by blast
  then show ?case using t1(1) by simp
qed

lemma ejecutar_equipos_claves:
  "ejecutar_equipos es s = Inr s' \<Longrightarrow> sin_reciclo es \<Longrightarrow> map fst s' = map fst s"
  using pasada_marco [of es s s' UNIV] by (simp add: coinciden_def)

lemma pasada_idempotente:
  assumes "sin_reciclo es" and "distinct (map fst s)"
    and "\<forall>k f. map_of s k = Some f \<and> k \<notin> \<Union>(asignados ` set es) \<longrightarrow> consistente f"
    and "ejecutar_equipos es s = Inr s1"
  shows "ejecutar_equipos es s1 = Inr s1"
proof -
  let ?A = "\<Union>(asignados ` set es)"
  have "coinciden ?A s1 s"
    using pasada_marco [OF assms(1,4,3)] by blast
  then have c: "coinciden ?A s s1" by (rule coinciden_sym)
  from c have k1: "map fst s = map fst s1" by (simp add: coinciden_def)
  from c have c': "coinciden ?A s1 s1" by (simp add: coinciden_def rel_flujos_refl)
  from pasada_coinciden [OF assms(1) c _ assms(4)] obtain t' where
    t: "ejecutar_equipos es s1 = Inr t'" "coinciden {} s1 t'" by blast
  from t(2) have e1: "map fst s1 = map fst t'" and e2: "map_of s1 = map_of t'"
    by (simp_all add: coinciden_def rel_flujos_vacio)
  have e3: "distinct (map fst s1)" using assms(2) k1 by simp
  from alist_igual [OF e1 e3 e2] have "s1 = t'" .
  with t(1) show ?thesis by simp
qed

lemma calcular_resultados_cong:
  assumes "f_entrada sim = f_entrada sim'" and "flujos sim = flujos sim'"
    and "f_salida sim = f_salida sim'" and "f_salida_conc sim = f_salida_conc sim'"
  shows "calcular_resultados lista sim = calcular_resultados lista sim'"
  unfolding calcular_resultados_def assms by (rule refl)

subsection \<open>Passes as a fold of the recomputation\<close>

lemma recalcular_simps:
  "recalcular e (Inl x) = Inl x" "recalcular e (Inr fl) = calcular e fl"
  by (simp_all add: recalcular_def)

lemma ejecutar_equipos_fold_gen:
  "fold recalcular es r = (case r of Inl x \<Rightarrow> Inl x | Inr fl \<Rightarrow> ejecutar_equipos es fl)"
proof (induction es arbitrary: r)
  case Nil
  then show ?case by (simp split: sum.splits)
next
  case (Cons e es)
  have "fold recalcular (e # es) r = fold recalcular es (recalcular e r)" by simp
  also have "\<dots> = (case recalcular e r of Inl x \<Rightarrow> Inl x
                      | Inr fl \<Rightarrow> ejecutar_equipos es fl)"
    by (rule Cons.IH)
  finally show ?case by (cases r) (simp_all add: recalcular_simps)
qed

lemma ejecutar_equipos_fold: "ejecutar_equipos es fl = fold recalcular es (Inr fl)"
  by (simp add: ejecutar_equipos_fold_gen)

lemma sim_reciclo_campos:
  "equipos sim_reciclo =
        [(''Suma 1'', \<lparr>nombre_eq = ''Suma 1'', clase_eq = Suma, flujos_entrada = [1, 4],
                       flujos_salida = [2], split_factor = [0, 0]\<rparr>),
         (''Celda 1'', \<lparr>nombre_eq = ''Celda 1'', clase_eq = Celda, flujos_entrada = [2],
                        flujos_salida = [3, 4], split_factor = [0.5, 0.5]\<rparr>)]"
  "flujos sim_reciclo =
     [(1, \<lparr>id_flujo = 1, nombre = [], masa = 100, ley = 2, contenido_fino = 2\<rparr>),
      (2, flujo_nuevo 2), (3, flujo_nuevo 3), (4, flujo_nuevo 4)]"
  "iteraciones_convergencia sim_reciclo = 2"
  "f_entrada sim_reciclo = {1}" "f_salida sim_reciclo = {3}"
  "f_salida_conc sim_reciclo = {3}"
  by (auto simp add: sim_reciclo_def establecer_alimentacion_def fijar_alimentacion_def
      Simulador_init_def identificar_flujos_globales_def todas_entradas_def todas_salidas_def
      flujo_nuevo_def actualizar_contenido_fino_def Let_def)

subsection \<open>Feed settings keep the flows consistent\<close>

lemma fijar_alimentacion_claves: "map fst (fijar_alimentacion fl k m l) = map fst fl"
  by (simp add: fijar_alimentacion_def map_fst_map_entry)

lemma fijar_alimentacion_map_of:
  "map_of (fijar_alimentacion fl k m l) j =
     (if j = k then map_option (\<lambda>f. f\<lparr>masa := m, ley := l, contenido_fino := m * l / 100\<rparr>)
                      (map_of fl k)
      else map_of fl j)"
  by (cases "map_of fl k")
     (auto simp add: fijar_alimentacion_def map_of_map_entry actualizar_contenido_fino_def)

lemma fijar_alimentacion_consistente:
  assumes "\<forall>j f. map_of fl j = Some f \<and> j \<notin> A \<longrightarrow> consistente f"
  shows "\<forall>j f. map_of (fijar_alimentacion fl k m l) j = Some f \<and> j \<notin> A \<longrightarrow> consistente f"
proof (intro allI impI)
  fix j f
  assume h: "map_of (fijar_alimentacion fl k m l) j = Some f \<and> j \<notin> A"
  show "consistente f"
  proof (cases "j = k")
    case True
    with h obtain g where "f = g\<lparr>masa := m, ley := l, contenido_fino := m * l / 100\<rparr>"
      by (auto simp add: fijar_alimentacion_map_of)
    then show ?thesis by (simp add: consistente_def)
  next
    case False
    with h assms show ?thesis by (auto simp add: fijar_alimentacion_map_of)
  qed
qed

lemma establecer_alimentaciones_inv:
  assumes "\<forall>j f. map_of (flujos sim) j = Some f \<and> j \<notin> A \<longrightarrow> consistente f"
  shows "equipos (establecer_alimentaciones sim ajustes) = equipos sim \<and>
         map fst (flujos (establecer_alimentaciones sim ajustes)) = map fst (flujos sim) \<and>
         (\<forall>j f. map_of (flujos (establecer_alimentaciones sim ajustes)) j = Some f \<and> j \<notin> A
                 \<longrightarrow> consistente f)"
  using assms
proof (induction ajustes arbitrary: sim)
  case Nil
  then show ?case by simp
next
  case (Cons a ajustes)
  obtain k m l where a: "a = (k, m, l)" by (cases a)
  let ?sim = "establecer_alimentacion sim k m l"
  have 1: "equipos ?sim = equipos sim"
    and 2: "map fst (flujos ?sim) = map fst (flujos sim)"
    by (simp_all add: establecer_alimentacion_def fijar_alimentacion_claves)
  have 3: "\<forall>j f. map_of (flujos ?sim) j = Some f \<and> j \<notin> A \<longrightarrow> consistente f"
    using fijar_alimentacion_consistente [OF Cons.prems, of k m l]
    by (simp add: establecer_alimentacion_def)
  from Cons.IH [OF 3] 1 2 show ?case by (simp add: a)
qed

lemma sin_reciclo_una_pasada_aux:
  assumes "sin_reciclo (map snd (equipos sim))"
    and "distinct (map fst (flujos sim))"
    and cons: "\<forall>k f. map_of (flujos sim) k = Some f
                  \<and> k \<notin> \<Union>(asignados ` set (map snd (equipos sim))) \<longrightarrow> consistente f"
    and "1 \<le> n"
  shows "simular lista (sim\<lparr>iteraciones_convergencia := n\<rparr>)
       = simular lista (sim\<lparr>iteraciones_convergencia := 1\<rparr>)"
proof -
  let ?es = "map snd (equipos sim)"
  from assms(4) obtain m where n: "nat n = Suc m" by (cases "nat n") auto
  have it: "iterar (Suc m) (equipos sim) (flujos sim) = iterar (Suc 0) (equipos sim) (flujos sim)"
  proof (cases "ejecutar_iteracion (equipos sim) (flujos sim)")
    case (Inl x)
    then show ?thesis by simp
  next
    case (Inr s1)
    then have p: "ejecutar_equipos ?es (flujos sim) = Inr s1"
      by (simp add: ejecutar_iteracion_def)
    from pasada_idempotente [OF assms(1,2) cons p]
    have "ejecutar_iteracion (equipos sim) s1 = Inr s1"
      by (simp add: ejecutar_iteracion_def)
    from iterar_punto_fijo [OF this] Inr show ?thesis by simp
  qed
  have cr: "calcular_resultados lista (sim\<lparr>iteraciones_convergencia := a, flujos := fl\<rparr>)
          = calcular_resultados lista (sim\<lparr>iteraciones_convergencia := b, flujos := fl\<rparr>)" for a b fl
    by (rule calcular_resultados_cong) simp_all
  show ?thesis
    using it n by (simp add: simular_def cr [where a = n and b = 1] split: sum.splits)
qed

subsection \<open>Rounding to a double\<close>

lemma redondeo_par_error: "\<bar>of_int (redondeo_par y) - y\<bar> \<le> 1 / 2"
proof -
  have "of_int \<lfloor>y\<rfloor> \<le> y" "y < of_int \<lfloor>y\<rfloor> + 1" by linarith+
  then show ?thesis
    by (auto simp add: redondeo_par_def Let_def)
qed

lemma floor_log2_entre:
  assumes "2 powi e \<le> \<bar>x\<bar>" and "\<bar>x\<bar> < 2 powi (e + 1)"
  shows "\<lfloor>log 2 \<bar>x::real\<bar>\<rfloor> = e"
proof -
  have p2: "0 < (2::real) powi e" by (rule zero_less_power_int) simp
  have pos: "0 < \<bar>x\<bar>"
    using assms(1) p2 by linarith
  have 1: "(2::real) powr real_of_int e = 2 powi e"
    by (rule powr_real_of_int') simp_all
  have 2: "(2::real) powr real_of_int (e + 1) = 2 powi (e + 1)"
    by (rule powr_real_of_int') simp_all
  have "2 powr real_of_int e \<le> \<bar>x\<bar> \<and> \<bar>x\<bar> < 2 powr real_of_int (e + 1)"
    unfolding 1 2 using assms by blast
  moreover have l: "1 < (2::real)" by simp
  ultimately show ?thesis
    using floor_log_eq_powr_iff [OF pos l, of e] by blast
qed

lemma doble_entre:
  assumes "2 powi e \<le> \<bar>x\<bar>" and "\<bar>x\<bar> < 2 powi (e + 1)" and "- 1022 \<le> e"
  shows "doble x = of_int (redondeo_par (x / 2 powi (e - 52))) * 2 powi (e - 52)"
proof -
  have p2: "0 < (2::real) powi e" by (rule zero_less_power_int) simp
  have "x \<noteq> 0"
  proof
    assume "x = 0"
    with assms(1) have "(2::real) powi e \<le> 0" by simp
    with p2 show False by linarith
  qed
  moreover have "max e (- 1022) = e"
    using assms(3) by simp
  ultimately show ?thesis
    by (simp add: doble_def floor_log2_entre [OF assms(1,2)] Let_def)
qed

text \<open>
  The error of a rounding is half the spacing of the doubles at the value: at most the
  fraction \<open>1 / 2 ^ 53\<close> of the value where the spacing follows the value, and at most
  \<open>1 / 2 ^ 1075\<close> below \<open>1 / 2 ^ 1022\<close>, where the spacing is \<open>1 / 2 ^ 1074\<close>.
\<close>

lemma doble_error: "\<bar>doble x - x\<bar> \<le> \<bar>x\<bar> / 2 ^ 53 + 1 / 2 ^ 1075"
proof (cases "x = 0")
  case True
  then show ?thesis by (simp add: doble_def)
next
  case False
  define e where "e = \<lfloor>log 2 \<bar>x\<bar>\<rfloor>"
  define q :: real where "q = 2 powi (max e (- 1022) - 52)"
  have qpos: "0 < q" by (simp add: q_def zero_less_power_int)
  have pos: "0 < \<bar>x\<bar>" using False by simp
  have "(2::real) powr real_of_int e \<le> \<bar>x\<bar>"
    using floor_log_eq_powr_iff [of "\<bar>x\<bar>" 2 e] pos by (simp add: e_def)
  then have lo: "(2::real) powi e \<le> \<bar>x\<bar>" by (simp add: powr_real_of_int')
  have d: "doble x = of_int (redondeo_par (x / q)) * q"
    using False by (simp add: doble_def e_def q_def Let_def)
  have "doble x - x = (of_int (redondeo_par (x / q)) - x / q) * q"
    using qpos by (simp add: d field_simps)
  then have "\<bar>doble x - x\<bar> = \<bar>of_int (redondeo_par (x / q)) - x / q\<bar> * q"
    using qpos by (simp add: abs_mult)
  also have "\<dots> \<le> 1 / 2 * q"
    using redondeo_par_error [of "x / q"] qpos by (intro mult_right_mono) simp_all
  finally have h: "\<bar>doble x - x\<bar> \<le> q / 2" by simp
  show ?thesis
  proof (cases "- 1022 \<le> e")
    case True
    then have "q = 2 powi (e - 52)" by (simp add: q_def)
    then have qe: "q * 2 ^ 52 = 2 powi e"
      by (simp add: power_int_diff)
    have "q / 2 = (q * 2 ^ 52) / 2 ^ 53" by simp
    also have "\<dots> \<le> \<bar>x\<bar> / 2 ^ 53"
      unfolding qe using lo by (intro divide_right_mono) simp_all
    finally have "q / 2 \<le> \<bar>x\<bar> / 2 ^ 53" .
    moreover have "(0::real) \<le> 1 / 2 ^ 1075" by simp
    ultimately show ?thesis using h by linarith
  next
    case False
    then have "max e (- 1022) - 52 = - 1074" by simp
    then have "q = 2 powi (- 1074)" by (simp only: q_def)
    then have "q = 1 / 2 ^ 1074"
      by (simp add: power_int_minus_divide)
    then have "q / 2 = 1 / 2 ^ 1075" by simp
    moreover have "0 \<le> \<bar>x\<bar> / 2 ^ 53" by simp
    ultimately show ?thesis using h by linarith
  qed
qed

lemma doble_modelo: "\<bar>doble x - x\<bar> \<le> (1 / 2 ^ 53) * \<bar>x\<bar> + 1 / 2 ^ 1075"
  using doble_error [of x] by simp

lemma doble_valor:
  assumes "2 powi e \<le> \<bar>x\<bar>" and "\<bar>x\<bar> < 2 powi (e + 1)" and "- 1022 \<le> e"
    and "redondeo_par (x / 2 powi (e - 52)) = m"
  shows "doble x = of_int m * 2 powi (e - 52)"
  using doble_entre [OF assms(1,2,3)] assms(4) by simp

text \<open>Below the least double that is not zero, a half of it is rounded to zero.\<close>

lemma doble_subnormal: "doble (1 / 2 ^ 1075) = 0"
proof -
  have x: "(1 / 2 ^ 1075 :: real) = 2 powi (- 1075)"
    by (simp add: power_int_minus_divide)
  have "\<lfloor>log 2 \<bar>2 powi (- 1075) :: real\<bar>\<rfloor> = - 1075"
    by (rule floor_log2_entre) (simp_all add: power_int_minus_divide)
  then have "doble (2 powi (- 1075)) =
     of_int (redondeo_par (2 powi (- 1075) / 2 powi (- 1074))) * 2 powi (- 1074)"
    by (simp add: doble_def Let_def)
  also have "(2 powi (- 1075) / 2 powi (- 1074) :: real) = 1 / 2"
    by (simp add: power_int_minus_divide)
  also have "redondeo_par (1 / 2) = 0"
    by (simp add: redondeo_par_def Let_def)
  finally show ?thesis unfolding x by simp
qed

text \<open>A quantity split by a rounded factor and by its rounded complement.\<close>

lemma reparto_error:
  fixes rd :: "real \<Rightarrow> real"
  assumes rd: "\<And>x. \<bar>rd x - x\<bar> \<le> u * \<bar>x\<bar> + h"
    and u: "0 \<le> u" and h: "0 \<le> h"
    and s: "0 \<le> s" "s \<le> 1"
  shows "\<bar>rd (m * s) + rd (m * rd (1 - s)) - m\<bar>
           \<le> (2 * u + u\<^sup>2 + (1 + u) * h) * \<bar>m\<bar> + 2 * h"
proof -
  let ?t = "rd (1 - s)"
  have a: "\<bar>rd (m * s) - m * s\<bar> \<le> u * (\<bar>m\<bar> * s) + h"
    using rd [of "m * s"] s by (simp add: abs_mult)
  have b: "\<bar>?t - (1 - s)\<bar> \<le> u * (1 - s) + h"
    using rd [of "1 - s"] s by simp
  then have t: "\<bar>?t\<bar> \<le> (1 + u) * (1 - s) + h"
    using s by (simp add: algebra_simps)
  have "\<bar>rd (m * ?t) - m * ?t\<bar> \<le> u * (\<bar>m\<bar> * \<bar>?t\<bar>) + h"
    using rd [of "m * ?t"] by (simp add: abs_mult)
  also have "\<dots> \<le> u * (\<bar>m\<bar> * ((1 + u) * (1 - s) + h)) + h"
    using t u by (intro add_right_mono mult_left_mono) simp_all
  finally have c: "\<bar>rd (m * ?t) - m * ?t\<bar> \<le> u * (\<bar>m\<bar> * ((1 + u) * (1 - s) + h)) + h" .
  have d: "\<bar>m * (?t - (1 - s))\<bar> \<le> \<bar>m\<bar> * (u * (1 - s) + h)"
    using b by (simp add: abs_mult mult_left_mono)
  have "rd (m * s) + rd (m * ?t) - m
          = (rd (m * s) - m * s) + (rd (m * ?t) - m * ?t) + m * (?t - (1 - s))"
    by (simp add: algebra_simps)
  then have "\<bar>rd (m * s) + rd (m * ?t) - m\<bar>
      \<le> (u * (\<bar>m\<bar> * s) + h) + (u * (\<bar>m\<bar> * ((1 + u) * (1 - s) + h)) + h)
          + \<bar>m\<bar> * (u * (1 - s) + h)"
    using a c d by linarith
  also have "\<dots> = (2 * u + u\<^sup>2 + (1 + u) * h) * \<bar>m\<bar> + 2 * h - u * (1 + u) * \<bar>m\<bar> * s"
    by (simp add: algebra_simps power2_eq_square)
  also have "\<dots> \<le> (2 * u + u\<^sup>2 + (1 + u) * h) * \<bar>m\<bar> + 2 * h"
    using u s by simp
  finally show ?thesis .
qed

lemma tolerancia_doble:
  "(2 * (1 / 2 ^ 53) + (1 / 2 ^ 53)\<^sup>2 + (1 + 1 / 2 ^ 53) * (1 / 2 ^ 1075)) * \<bar>m\<bar>
      + 2 * (1 / 2 ^ 1075)
   \<le> 3 / 2 ^ 53 * \<bar>m::real\<bar> + 1 / 2 ^ 1074"
proof -
  have "(2 * (1 / 2 ^ 53) + (1 / 2 ^ 53)\<^sup>2 + (1 + 1 / 2 ^ 53) * (1 / 2 ^ 1075) :: real)
          \<le> 3 / 2 ^ 53"
    by (simp add: power2_eq_square)
  then have "(2 * (1 / 2 ^ 53) + (1 / 2 ^ 53)\<^sup>2 + (1 + 1 / 2 ^ 53) * (1 / 2 ^ 1075)) * \<bar>m\<bar>
          \<le> 3 / 2 ^ 53 * \<bar>m\<bar>"
    by (intro mult_right_mono) simp_all
  moreover have "(2 * (1 / 2 ^ 1075) :: real) = 1 / 2 ^ 1074" by simp
  ultimately show ?thesis by linarith
qed

lemma reparto_doble:
  assumes "0 \<le> s" "s \<le> 1"
  shows "\<bar>doble (m * s) + doble (m * doble (1 - s)) - m\<bar> \<le> 3 / 2 ^ 53 * \<bar>m\<bar> + 1 / 2 ^ 1074"
proof -
  have "\<bar>doble (m * s) + doble (m * doble (1 - s)) - m\<bar>
      \<le> (2 * (1 / 2 ^ 53) + (1 / 2 ^ 53)\<^sup>2 + (1 + 1 / 2 ^ 53) * (1 / 2 ^ 1075)) * \<bar>m\<bar>
          + 2 * (1 / 2 ^ 1075)"
    by (rule reparto_error [OF doble_modelo _ _ assms]) simp_all
  then show ?thesis
    using tolerancia_doble [of m] by linarith
qed

lemma redondeo_par_cota:
  assumes "\<bar>y\<bar> \<le> of_int n"
  shows "\<bar>redondeo_par y\<bar> \<le> n"
proof -
  have lo: "- n \<le> \<lfloor>y\<rfloor>"
    using assms by (simp add: le_floor_iff abs_le_iff)
  have hi: "\<lceil>y\<rceil> \<le> n"
    using assms by (simp add: ceiling_le_iff abs_le_iff)
  have 1: "\<lfloor>y\<rfloor> \<le> redondeo_par y"
    by (simp add: redondeo_par_def Let_def)
  have 2: "redondeo_par y \<le> \<lceil>y\<rceil>"
  proof (cases "y = of_int \<lfloor>y\<rfloor>")
    case True
    then have "y - of_int \<lfloor>y\<rfloor> = 0" by simp
    then have "redondeo_par y = \<lfloor>y\<rfloor>"
      by (simp add: redondeo_par_def Let_def)
    then show ?thesis
      using floor_le_ceiling [of y] by simp
  next
    case False
    then have "\<lceil>y\<rceil> = \<lfloor>y\<rfloor> + 1"
      by (metis ceiling_altdef)
    then show ?thesis
      by (simp add: redondeo_par_def Let_def)
  qed
  show ?thesis
    using lo hi 1 2 by linarith
qed

text \<open>Rounding does not go over a power of two that is a double.\<close>

lemma doble_cota:
  assumes "\<bar>x\<bar> \<le> 2 powi k" and "- 1074 \<le> k"
  shows "\<bar>doble x\<bar> \<le> 2 powi k"
proof (cases "x = 0")
  case True
  then show ?thesis by (simp add: doble_def)
next
  case False
  define e where "e = \<lfloor>log 2 \<bar>x\<bar>\<rfloor>"
  define j where "j = max e (- 1022) - 52"
  define q :: real where "q = 2 powi j"
  have qpos: "0 < q" by (simp add: q_def zero_less_power_int)
  have pos: "0 < \<bar>x\<bar>" using False by simp
  have "(2::real) powr real_of_int e \<le> \<bar>x\<bar>"
    using floor_log_eq_powr_iff [of "\<bar>x\<bar>" 2 e] pos by (simp add: e_def)
  then have "(2::real) powi e \<le> \<bar>x\<bar>" by (simp add: powr_real_of_int')
  then have ek: "(2::real) powi e \<le> 2 powi k"
    using assms(1) by linarith
  have "e \<le> k"
  proof (rule ccontr)
    assume "\<not> e \<le> k"
    then have "k < e" by simp
    then have "(2::real) powi k < 2 powi e"
      by (rule power_int_strict_increasing) simp
    with ek show False by linarith
  qed
  then have jk: "0 \<le> k - j"
    using assms(2) by (simp add: j_def)
  have kq: "(2::real) powi k = of_int (2 ^ nat (k - j)) * q"
  proof -
    have "(2::real) powi k = 2 powi (k - j) * 2 powi j"
      by (simp add: power_int_add [symmetric])
    also have "(2::real) powi (k - j) = 2 ^ nat (k - j)"
      using jk by (simp add: power_int_def)
    finally show ?thesis by (simp add: q_def)
  qed
  have d: "doble x = of_int (redondeo_par (x / q)) * q"
    using False by (simp add: doble_def e_def j_def q_def Let_def)
  have "\<bar>x / q\<bar> = \<bar>x\<bar> / q"
    using qpos by (simp add: abs_divide)
  also have "\<dots> \<le> (2 powi k) / q"
    using assms(1) qpos by (intro divide_right_mono) simp_all
  also have "\<dots> = of_int (2 ^ nat (k - j))"
    using qpos by (simp add: kq)
  finally have "\<bar>redondeo_par (x / q)\<bar> \<le> 2 ^ nat (k - j)"
    by (rule redondeo_par_cota)
  then have "\<bar>real_of_int (redondeo_par (x / q))\<bar> \<le> real_of_int (2 ^ nat (k - j))"
    by (metis of_int_abs of_int_le_iff)
  then have "\<bar>real_of_int (redondeo_par (x / q))\<bar> * q \<le> real_of_int (2 ^ nat (k - j)) * q"
    using qpos by (intro mult_right_mono) simp_all
  then show ?thesis
    using qpos by (simp add: d kq abs_mult)
qed

lemma doble_cota_1023: "\<bar>x\<bar> \<le> 2 ^ 1023 \<Longrightarrow> \<bar>doble x\<bar> \<le> 2 ^ 1023"
  using doble_cota [of x 1023] by simp

lemma doble_cota_1: "\<bar>x\<bar> \<le> 1 \<Longrightarrow> \<bar>doble x\<bar> \<le> 1"
  using doble_cota [of x 0] by simp

text \<open>The two parts of a quantity under \<open>2 ^ 1023\<close> stay under it.\<close>

lemma reparto_cota:
  assumes "\<bar>m\<bar> \<le> 2 ^ 1023" and "0 \<le> s" and "s \<le> 1"
  shows "\<bar>doble (m * s)\<bar> \<le> 2 ^ 1023" and "\<bar>doble (m * doble (1 - s))\<bar> \<le> 2 ^ 1023"
proof -
  have "\<bar>m * s\<bar> \<le> \<bar>m\<bar> * 1"
    unfolding abs_mult using assms(2,3) by (intro mult_left_mono) simp_all
  then have "\<bar>m * s\<bar> \<le> 2 ^ 1023"
    using assms(1) by linarith
  then show "\<bar>doble (m * s)\<bar> \<le> 2 ^ 1023"
    by (rule doble_cota_1023)
  have "\<bar>1 - s\<bar> \<le> 1"
    using assms(2,3) by simp
  then have "\<bar>doble (1 - s)\<bar> \<le> 1"
    by (rule doble_cota_1)
  then have "\<bar>m * doble (1 - s)\<bar> \<le> \<bar>m\<bar> * 1"
    unfolding abs_mult by (intro mult_left_mono) simp_all
  then have "\<bar>m * doble (1 - s)\<bar> \<le> 2 ^ 1023"
    using assms(1) by linarith
  then show "\<bar>doble (m * doble (1 - s))\<bar> \<le> 2 ^ 1023"
    by (rule doble_cota_1023)
qed

lemma fino_cota:
  assumes "\<bar>m * l\<bar> \<le> 2 ^ 1023"
  shows "\<bar>doble (doble (m * l) / 100)\<bar> \<le> 2 ^ 1023"
proof -
  have "\<bar>doble (m * l)\<bar> \<le> 2 ^ 1023"
    using assms by (rule doble_cota_1023)
  moreover have "\<bar>doble (m * l) / 100\<bar> \<le> \<bar>doble (m * l)\<bar>"
    by (simp add: abs_divide)
  ultimately have "\<bar>doble (m * l) / 100\<bar> \<le> 2 ^ 1023"
    by linarith
  then show ?thesis
    by (rule doble_cota_1023)
qed


subsection \<open>What the splitter assigns in double arithmetic\<close>

lemma actualizar_ley_en_red_poner:
  "map_of fl k \<noteq> None \<Longrightarrow>
   actualizar_ley_en_red rd k fl = Inr (AList.map_entry k (poner_ley_red rd) fl)"
proof -
  assume "map_of fl k \<noteq> None"
  then obtain f where f: "map_of fl k = Some f" by auto
  have "actualizar_ley_red rd f = Inr (poner_ley_red rd f)"
    by (simp add: actualizar_ley_red_def poner_ley_red_def py_div_def)
  then show ?thesis
    using f map_entry_const [OF f, of "poner_ley_red rd"]
    by (simp add: actualizar_ley_en_red_def)
qed

lemma calcular_celda_red_exito:
  assumes ent: "flujos_entrada e = ie # ents"
    and sal: "flujos_salida e = ic # ir # sal"
    and sp: "split_factor e = sm # sc # sps"
    and a: "map_of fl ie = Some a" and b: "map_of fl ic = Some b" and c: "map_of fl ir = Some c"
    and d: "ie \<noteq> ic" "ie \<noteq> ir"
  shows "\<exists>fl'. calcular_celda_red rd e fl = Inr fl' \<and> map fst fl' = map fst fl \<and>
           map_of fl' = (map_of fl)
             (ie \<mapsto> actualizar_contenido_fino_red rd a,
              ic \<mapsto> poner_ley_red rd (b\<lparr>masa := rd (masa a * sm),
                 contenido_fino := rd (rd (rd (masa a * ley a) / 100) * sc)\<rparr>),
              ir \<mapsto> poner_ley_red rd (c\<lparr>masa := rd (masa a * rd (1 - sm)),
                 contenido_fino := rd (rd (rd (masa a * ley a) / 100) * rd (1 - sc))\<rparr>))"
  using assms
  by (simp add: calcular_celda_red_def Let_def actualizar_ley_en_red_poner campo_map_entry_otro
        map_fst_map_entry)
     (auto simp add: fun_eq_iff map_of_map_entry campo_def actualizar_contenido_fino_red_def
        poner_ley_red_def)

lemma calcular_celda_red_exacto: "calcular_celda_red (\<lambda>x. x) e fl = calcular_celda e fl"
proof -
  have 1: "actualizar_contenido_fino_red (\<lambda>x. x) = actualizar_contenido_fino"
    by (simp add: fun_eq_iff actualizar_contenido_fino_red_def actualizar_contenido_fino_def)
  have 0: "actualizar_ley_red (\<lambda>x. x) = actualizar_ley"
    by (simp add: fun_eq_iff actualizar_ley_red_def actualizar_ley_def)
  have 2: "actualizar_ley_en_red (\<lambda>x. x) = actualizar_ley_en"
    unfolding fun_eq_iff actualizar_ley_en_red_def actualizar_ley_en_def 0 by simp
  show ?thesis
    unfolding calcular_celda_red_def calcular_celda_def 1 2 by (rule refl)
qed

subsection \<open>The decimal split factors, evaluated\<close>

lemma doble_150: "doble 150 = 150"
  by (subst doble_valor [where e = 7 and m = 5277655813324800])
     (simp_all add: redondeo_par_def Let_def power_int_minus_divide)

lemma doble_3_2: "doble (3 / 2) = 3 / 2"
  by (subst doble_valor [where e = 0 and m = 6755399441055744])
     (simp_all add: redondeo_par_def Let_def power_int_minus_divide)

lemma doble_masa_conc: "doble (90071992547409925 / 9007199254740992) = 10"
  by (subst doble_valor [where e = 3 and m = 5629499534213120])
     (simp_all add: redondeo_par_def Let_def power_int_minus_divide)

lemma doble_1_sm:
  "doble (32425917317067571 / 36028797018963968) = 8106479329266893 / 9007199254740992"
  by (subst doble_valor [where e = "- 1" and m = 8106479329266893])
     (simp_all add: redondeo_par_def Let_def power_int_minus_divide)

lemma doble_masa_rel: "doble (202661983231672325 / 2251799813685248) = 90"
  by (subst doble_valor [where e = 6 and m = 6333186975989760])
     (simp_all add: redondeo_par_def Let_def power_int_minus_divide)

lemma doble_cf_conc:
  "doble (16212958658533785 / 36028797018963968) = 2026619832316723 / 4503599627370496"
  by (subst doble_valor [where e = "- 2" and m = 8106479329266892])
     (simp_all add: redondeo_par_def Let_def power_int_minus_divide)

lemma doble_1_sc:
  "doble (12610078956637389 / 18014398509481984) = 3152519739159347 / 4503599627370496"
  by (subst doble_valor [where e = "- 1" and m = 6305039478318694])
     (simp_all add: redondeo_par_def Let_def power_int_minus_divide)

lemma doble_cf_rel:
  "doble (9457559217478041 / 9007199254740992) = 1182194902184755 / 1125899906842624"
  by (subst doble_valor [where e = 0 and m = 4728779608739020])
     (simp_all add: redondeo_par_def Let_def power_int_minus_divide)

lemma doble_q_conc:
  "doble (2026619832316723 / 45035996273704960) = 3242591731706757 / 72057594037927936"
  by (subst doble_valor [where e = "- 5" and m = 6485183463413514])
     (simp_all add: redondeo_par_def Let_def power_int_minus_divide)

lemma doble_ley_conc: "doble (81064793292668925 / 18014398509481984) = 9 / 2"
  by (subst doble_valor [where e = 2 and m = 5066549580791808])
     (simp_all add: redondeo_par_def Let_def power_int_minus_divide)

lemma doble_q_rel:
  "doble (236438980436951 / 20266198323167232) = 1681343860884985 / 144115188075855872"
  by (subst doble_valor [where e = "- 7" and m = 6725375443539940])
     (simp_all add: redondeo_par_def Let_def power_int_minus_divide)

lemma doble_ley_rel:
  "doble (42033596522124625 / 36028797018963968) = 2627099782632789 / 2251799813685248"
  by (subst doble_valor [where e = 0 and m = 5254199565265578])
     (simp_all add: redondeo_par_def Let_def power_int_minus_divide)

lemma doble_suma:
  "doble (6755399441055743 / 4503599627370496) = 6755399441055743 / 4503599627370496"
  by (subst doble_valor [where e = 0 and m = 6755399441055743])
     (simp_all add: redondeo_par_def Let_def power_int_minus_divide)

lemmas dobles = doble_150 doble_3_2 doble_masa_conc doble_1_sm doble_masa_rel doble_cf_conc
  doble_1_sc doble_cf_rel doble_q_conc doble_ley_conc doble_q_rel doble_ley_rel doble_suma

lemma calcular_celda_decimal:
  "calcular_celda_red doble celda_decimal (flujos sim_ejemplo) = Inr
     [(1, \<lparr>id_flujo = 1, nombre = [], masa = 100, ley = 3 / 2, contenido_fino = 3 / 2\<rparr>),
      (2, \<lparr>id_flujo = 2, nombre = [], masa = 10, ley = 9 / 2,
           contenido_fino = 2026619832316723 / 4503599627370496\<rparr>),
      (3, \<lparr>id_flujo = 3, nombre = [], masa = 90, ley = 2627099782632789 / 2251799813685248,
           contenido_fino = 1182194902184755 / 1125899906842624\<rparr>)]"
  by (simp add: calcular_celda_red_def celda_decimal_def sim_ejemplo_campos flujo_nuevo_def
      Let_def campo_def actualizar_contenido_fino_red_def actualizar_ley_en_red_def
      actualizar_ley_red_def py_div_def dobles)

section \<open>The claims\<close>

text \<open>
  Claim C1, as amended. A node writes the flows of its declared outputs, and a
  \<^verbatim>\<open>Celda\<close> also re-derives the fine content of its input flow from the mass and the
  grade of that flow. For every node, every dictionary of flows and every flow id that
  is not a declared output: the flow is unchanged, unless it is the first input of a
  \<^verbatim>\<open>Celda\<close>, in which case its mass, grade, id and name are unchanged and its fine
  content is \<open>masa * ley / 100\<close>. This holds also when \<^verbatim>\<open>calcular\<close> raises.
\<close>

theorem calcular_marco:
  assumes "k \<notin> set (flujos_salida e)"
  shows "map_of (estado (calcular e fl)) k =
     (if clase_eq e = Celda \<and> flujos_entrada e \<noteq> [] \<and> k = hd (flujos_entrada e)
      then map_option actualizar_contenido_fino (map_of fl k) else map_of fl k)"
  using assms by (rule calcular_marco_aux)

theorem calcular_marco_witness:
  "2 \<notin> set (flujos_salida \<lparr>nombre_eq = ''Suma 1'', clase_eq = Suma, flujos_entrada = [1, 2],
        flujos_salida = [3], split_factor = []\<rparr>) \<and>
   map_of (estado (calcular \<lparr>nombre_eq = ''Suma 1'', clase_eq = Suma, flujos_entrada = [1, 2],
        flujos_salida = [3], split_factor = []\<rparr> flujos_sin_masa)) 2 = Some (flujo_nuevo 2)"
  using calcular_marco [of 2 "\<lparr>nombre_eq = ''Suma 1'', clase_eq = Suma, flujos_entrada = [1, 2],
        flujos_salida = [3], split_factor = []\<rparr>" flujos_sin_masa]
  by (simp add: flujos_sin_masa_def)

text \<open>
  The claim as it is written fails on the input flow of a \<^verbatim>\<open>Celda\<close>: flow 1 is not an
  output of the node and its fine content changes from 1.125 to 0.
\<close>

theorem calcular_marco_contraejemplo:
  "1 \<notin> set (flujos_salida celda_ejemplo) \<and>
   map_of flujos_sin_masa 1
     = Some \<lparr>id_flujo = 1, nombre = [], masa = 0, ley = 0, contenido_fino = 1.125\<rparr> \<and>
   map_of (estado (calcular celda_ejemplo flujos_sin_masa)) 1
     = Some \<lparr>id_flujo = 1, nombre = [], masa = 0, ley = 0, contenido_fino = 0\<rparr>"
  by (simp add: celda_ejemplo_def flujos_sin_masa_def flujo_nuevo_def calcular_def
      calcular_celda_def Let_def campo_def actualizar_contenido_fino_def
      actualizar_ley_en_def actualizar_ley_total)

text \<open>
  Claim C2. The single splitter with feed mass 100 and grade 1.5 and split factors 0.10
  and 0.75: \<^verbatim>\<open>simular\<close> returns, the concentrate has mass 10, fine content 1.125 and
  grade 11.25, the reject has mass 90, fine content 0.375 and grade 0.375 / 90 * 100,
  and the result has recovery 75, mass pull 10, enrichment ratio 7.5 and both balance
  errors 0. The only thing asked of the enumeration of a set is that the set with the
  one element 1 is enumerated as that element.
\<close>

theorem escenario_celda_unica:
  assumes "lista {1} = [1]"
  shows "\<exists>fl' res. simular lista sim_ejemplo = Inr (fl', res) \<and>
     map_of fl' 2 = Some \<lparr>id_flujo = 2, nombre = [], masa = 10, ley = 11.25,
                          contenido_fino = 1.125\<rparr> \<and>
     map_of fl' 3 = Some \<lparr>id_flujo = 3, nombre = [], masa = 90, ley = 0.375 / 90 * 100,
                          contenido_fino = 0.375\<rparr> \<and>
     recuperacion res = 75 \<and> mass_pull res = 10 \<and> razon_enriquecimiento res = 7.5 \<and>
     error_masa res = 0 \<and> error_cuf res = 0"
  using assms simular_ejemplo [of lista] by (simp add: flujos_ejemplo_final_def)

theorem escenario_celda_unica_witness:
  "sorted_list_of_set {1::int} = [1] \<and>
   (\<exists>fl' res. simular sorted_list_of_set sim_ejemplo = Inr (fl', res) \<and>
     map_of fl' 2 = Some \<lparr>id_flujo = 2, nombre = [], masa = 10, ley = 11.25,
                          contenido_fino = 1.125\<rparr> \<and>
     map_of fl' 3 = Some \<lparr>id_flujo = 3, nombre = [], masa = 90, ley = 0.375 / 90 * 100,
                          contenido_fino = 0.375\<rparr> \<and>
     recuperacion res = 75 \<and> mass_pull res = 10 \<and> razon_enriquecimiento res = 7.5 \<and>
     error_masa res = 0 \<and> error_cuf res = 0)"
  using escenario_celda_unica [of sorted_list_of_set] by simp

text \<open>
  Claim C3, as amended. Splitter conservation holds within the tolerance of double
  arithmetic. For a \<^verbatim>\<open>Celda\<close> whose input and two outputs are three different flows of
  the dictionary, for every pair of split factors in the unit interval and every state of
  the input flow in which the mass, and the product of the mass and the grade, do not
  exceed \<open>2 ^ 1023\<close> in absolute value, \<^verbatim>\<open>calcular\<close> returns, and no mass and no fine
  content that it assigns exceeds \<open>2 ^ 1023\<close>, so that none of them is infinite. The
  masses of the concentrate and of the reject add up to the mass of the input with an
  error of at most \<open>3 u\<close> times that mass plus \<open>1 / 2 ^ 1074\<close>, where \<open>u = 1 / 2 ^ 53\<close> is
  the unit roundoff of a double and \<open>1 / 2 ^ 1074\<close> the least double above zero, and
  their fine contents add up to the fine content of the input, which is the one derived
  from the mass and the grade of the input, with the same error.
\<close>

theorem celda_conservacion_tolerancia:
  assumes "flujos_entrada e = ie # ents"
    and "flujos_salida e = ic # ir # sal"
    and "split_factor e = sp_masa # sp_cuf # sps"
    and "map_of fl ie = Some entrada" and "map_of fl ic \<noteq> None" and "map_of fl ir \<noteq> None"
    and "ie \<noteq> ic" and "ie \<noteq> ir" and "ic \<noteq> ir"
    and "0 \<le> sp_masa" and "sp_masa \<le> 1" and "0 \<le> sp_cuf" and "sp_cuf \<le> 1"
    and "\<bar>masa entrada\<bar> \<le> 2 ^ 1023" and "\<bar>masa entrada * ley entrada\<bar> \<le> 2 ^ 1023"
  shows "\<exists>fl' entrada' concentrado relave.
           calcular_celda_red doble e fl = Inr fl' \<and> map_of fl' ie = Some entrada' \<and>
           map_of fl' ic = Some concentrado \<and> map_of fl' ir = Some relave \<and>
           masa entrada' = masa entrada \<and>
           contenido_fino entrada' = doble (doble (masa entrada * ley entrada) / 100) \<and>
           \<bar>contenido_fino entrada'\<bar> \<le> 2 ^ 1023 \<and>
           \<bar>masa concentrado\<bar> \<le> 2 ^ 1023 \<and> \<bar>masa relave\<bar> \<le> 2 ^ 1023 \<and>
           \<bar>contenido_fino concentrado\<bar> \<le> 2 ^ 1023 \<and>
           \<bar>contenido_fino relave\<bar> \<le> 2 ^ 1023 \<and>
           \<bar>masa concentrado + masa relave - masa entrada'\<bar>
             \<le> 3 / 2 ^ 53 * \<bar>masa entrada'\<bar> + 1 / 2 ^ 1074 \<and>
           \<bar>contenido_fino concentrado + contenido_fino relave - contenido_fino entrada'\<bar>
             \<le> 3 / 2 ^ 53 * \<bar>contenido_fino entrada'\<bar> + 1 / 2 ^ 1074"
proof -
  from assms(5,6) obtain b c where bc: "map_of fl ic = Some b" "map_of fl ir = Some c"
    by auto
  let ?F = "doble (doble (masa entrada * ley entrada) / 100)"
  let ?a = "actualizar_contenido_fino_red doble entrada"
  let ?c = "poner_ley_red doble (b\<lparr>masa := doble (masa entrada * sp_masa),
                 contenido_fino := doble (?F * sp_cuf)\<rparr>)"
  let ?r = "poner_ley_red doble (c\<lparr>masa := doble (masa entrada * doble (1 - sp_masa)),
                 contenido_fino := doble (?F * doble (1 - sp_cuf))\<rparr>)"
  from calcular_celda_red_exito [OF assms(1,2,3,4) bc assms(7,8), of doble]
  obtain fl' where r: "calcular_celda_red doble e fl = Inr fl'"
    and m: "map_of fl' = (map_of fl)(ie \<mapsto> ?a, ic \<mapsto> ?c, ir \<mapsto> ?r)"
    by blast
  have 2: "map_of fl' ie = Some ?a"
    using m assms(7,8) by simp
  have 3: "map_of fl' ic = Some ?c"
    using m assms(9) by simp
  have 4: "map_of fl' ir = Some ?r"
    using m by simp
  have 5: "masa ?a = masa entrada" and 6: "contenido_fino ?a = ?F"
    by (simp_all add: actualizar_contenido_fino_red_def)
  have mc: "masa ?c = doble (masa entrada * sp_masa)"
    and mr: "masa ?r = doble (masa entrada * doble (1 - sp_masa))"
    and cc: "contenido_fino ?c = doble (?F * sp_cuf)"
    and cr: "contenido_fino ?r = doble (?F * doble (1 - sp_cuf))"
    by (simp_all add: poner_ley_red_def)
  have F: "\<bar>?F\<bar> \<le> 2 ^ 1023"
    using assms(15) by (rule fino_cota)
  have 7: "\<bar>contenido_fino ?a\<bar> \<le> 2 ^ 1023"
    unfolding 6 by (rule F)
  have 8: "\<bar>masa ?c\<bar> \<le> 2 ^ 1023"
    unfolding mc by (rule reparto_cota(1) [OF assms(14,10,11)])
  have 9: "\<bar>masa ?r\<bar> \<le> 2 ^ 1023"
    unfolding mr by (rule reparto_cota(2) [OF assms(14,10,11)])
  have 10: "\<bar>contenido_fino ?c\<bar> \<le> 2 ^ 1023"
    unfolding cc by (rule reparto_cota(1) [OF F assms(12,13)])
  have 11: "\<bar>contenido_fino ?r\<bar> \<le> 2 ^ 1023"
    unfolding cr by (rule reparto_cota(2) [OF F assms(12,13)])
  have 12: "\<bar>masa ?c + masa ?r - masa ?a\<bar> \<le> 3 / 2 ^ 53 * \<bar>masa ?a\<bar> + 1 / 2 ^ 1074"
    unfolding mc mr 5 by (rule reparto_doble [OF assms(10,11)])
  have 13: "\<bar>contenido_fino ?c + contenido_fino ?r - contenido_fino ?a\<bar>
             \<le> 3 / 2 ^ 53 * \<bar>contenido_fino ?a\<bar> + 1 / 2 ^ 1074"
    unfolding cc cr 6 by (rule reparto_doble [OF assms(12,13)])
  show ?thesis
    using r 2 3 4 5 6 7 8 9 10 11 12 13 by blast
qed

theorem celda_conservacion_tolerancia_witness:
  "\<exists>fl' entrada' concentrado relave.
     calcular_celda_red doble celda_decimal (flujos sim_ejemplo) = Inr fl' \<and>
     map_of fl' 1 = Some entrada' \<and> map_of fl' 2 = Some concentrado \<and>
     map_of fl' 3 = Some relave \<and> masa entrada' = 100 \<and>
     contenido_fino entrada' = doble (doble (100 * (3 / 2)) / 100) \<and>
     \<bar>contenido_fino entrada'\<bar> \<le> 2 ^ 1023 \<and>
     \<bar>masa concentrado\<bar> \<le> 2 ^ 1023 \<and> \<bar>masa relave\<bar> \<le> 2 ^ 1023 \<and>
     \<bar>contenido_fino concentrado\<bar> \<le> 2 ^ 1023 \<and>
     \<bar>contenido_fino relave\<bar> \<le> 2 ^ 1023 \<and>
     \<bar>masa concentrado + masa relave - masa entrada'\<bar>
        \<le> 3 / 2 ^ 53 * \<bar>masa entrada'\<bar> + 1 / 2 ^ 1074 \<and>
     \<bar>contenido_fino concentrado + contenido_fino relave - contenido_fino entrada'\<bar>
        \<le> 3 / 2 ^ 53 * \<bar>contenido_fino entrada'\<bar> + 1 / 2 ^ 1074"
  using celda_conservacion_tolerancia [of celda_decimal 1 "[]" 2 3 "[]"
      "3602879701896397 / 2 ^ 55" "5404319552844595 / 2 ^ 54" "[]" "flujos sim_ejemplo"
      "\<lparr>id_flujo = 1, nombre = [], masa = 100, ley = 3 / 2, contenido_fino = 3 / 2\<rparr>"]
  by (simp add: celda_decimal_def sim_ejemplo_campos)

text \<open>
  The claim as it is written fails: with the feed of mass 100 and grade 1.5 and the split
  factors 0.1 and 0.3, the fine content of the input is 1.5 and the fine contents of the
  concentrate and of the reject add up to \<open>1.5 - 1 / 2 ^ 52\<close>, in exact arithmetic and
  as a sum of doubles.
\<close>

theorem celda_conservacion_contraejemplo:
  "split_factor celda_decimal = [3602879701896397 / 2 ^ 55, 5404319552844595 / 2 ^ 54] \<and>
   (0::real) \<le> 5404319552844595 / 2 ^ 54 \<and> (5404319552844595 / 2 ^ 54 :: real) \<le> 1 \<and>
   map_of (flujos sim_ejemplo) 1
     = Some \<lparr>id_flujo = 1, nombre = [], masa = 100, ley = 3 / 2, contenido_fino = 3 / 2\<rparr> \<and>
   calcular_celda_red doble celda_decimal (flujos sim_ejemplo) = Inr
     [(1, \<lparr>id_flujo = 1, nombre = [], masa = 100, ley = 3 / 2, contenido_fino = 3 / 2\<rparr>),
      (2, \<lparr>id_flujo = 2, nombre = [], masa = 10, ley = 9 / 2,
           contenido_fino = 2026619832316723 / 2 ^ 52\<rparr>),
      (3, \<lparr>id_flujo = 3, nombre = [], masa = 90, ley = 2627099782632789 / 2 ^ 51,
           contenido_fino = 1182194902184755 / 2 ^ 50\<rparr>)] \<and>
   (2026619832316723 / 2 ^ 52 + 1182194902184755 / 2 ^ 50 :: real) = 3 / 2 - 1 / 2 ^ 52 \<and>
   (2026619832316723 / 2 ^ 52 + 1182194902184755 / 2 ^ 50 :: real) \<noteq> 3 / 2 \<and>
   doble (2026619832316723 / 2 ^ 52 + 1182194902184755 / 2 ^ 50) = 3 / 2 - 1 / 2 ^ 52"
  using calcular_celda_decimal
  by (simp add: celda_decimal_def sim_ejemplo_campos dobles)

text \<open>
  Claim C4. \<^verbatim>\<open>simular\<close> runs the configured number of passes, 100 when the constructor
  is given none. A pass is \<^verbatim>\<open>calcular\<close> of every node of the dictionary, once each and
  in the order of the dictionary, every node on the flows that the node before it left.
  The flows that \<^verbatim>\<open>simular\<close> leaves are those of that many passes one after another,
  and the metrics are computed from them whatever they are: no test of convergence is
  made, and only an exception of a node or of the metrics ends the run early. On a
  well-formed circuit \<^verbatim>\<open>simular\<close> returns a result, for every value of the flows, of
  the split factors and of the number of passes.
\<close>

theorem simular_pasadas_fijas:
  "iteraciones_convergencia (Simulador_init eqs fl relave None) = 100 \<and>
   ejecutar_iteracion (equipos sim) fl0 =
     fold (\<lambda>e r. case r of Inl x \<Rightarrow> Inl x | Inr s \<Rightarrow> calcular e s)
       (map snd (equipos sim)) (Inr fl0) \<and>
   simular lista sim =
     (case fold (\<lambda>e r. case r of Inl x \<Rightarrow> Inl x | Inr s \<Rightarrow> calcular e s)
             (concat (replicate (nat (iteraciones_convergencia sim)) (map snd (equipos sim))))
             (Inr (flujos sim)) of
        Inl x \<Rightarrow> Inl x
      | Inr fl' \<Rightarrow>
          (case calcular_resultados lista (sim\<lparr>flujos := fl'\<rparr>) of
             Inl err \<Rightarrow> Inl (err, fl')
           | Inr res \<Rightarrow> Inr (fl', res))) \<and>
   (circuito_bien_formado lista sim \<longrightarrow> (\<exists>fl' res. simular lista sim = Inr (fl', res)))"
proof (intro conjI impI)
  have r: "(\<lambda>e r. case r of Inl x \<Rightarrow> Inl x | Inr s \<Rightarrow> calcular e s) = recalcular"
    by (simp add: fun_eq_iff recalcular_def)
  show "iteraciones_convergencia (Simulador_init eqs fl relave None) = 100"
    by (simp add: Simulador_init_def iteraciones_por_defecto_def split: prod.splits)
  show "ejecutar_iteracion (equipos sim) fl0 =
     fold (\<lambda>e r. case r of Inl x \<Rightarrow> Inl x | Inr s \<Rightarrow> calcular e s)
       (map snd (equipos sim)) (Inr fl0)"
    unfolding r by (simp add: ejecutar_iteracion_def ejecutar_equipos_fold)
  show "simular lista sim =
     (case fold (\<lambda>e r. case r of Inl x \<Rightarrow> Inl x | Inr s \<Rightarrow> calcular e s)
             (concat (replicate (nat (iteraciones_convergencia sim)) (map snd (equipos sim))))
             (Inr (flujos sim)) of
        Inl x \<Rightarrow> Inl x
      | Inr fl' \<Rightarrow>
          (case calcular_resultados lista (sim\<lparr>flujos := fl'\<rparr>) of
             Inl err \<Rightarrow> Inl (err, fl')
           | Inr res \<Rightarrow> Inr (fl', res)))"
    unfolding r by (simp add: simular_def iterar_concat ejecutar_equipos_fold)
next
  assume wf: "circuito_bien_formado lista sim"
  then obtain fl' where 1:
    "iterar (nat (iteraciones_convergencia sim)) (equipos sim) (flujos sim) = Inr fl'"
    "map fst fl' = map fst (flujos sim)"
    using iterar_retorna [of "flujos sim" "equipos sim" "nat (iteraciones_convergencia sim)"]
    by (auto simp add: circuito_bien_formado_def)
  from wf obtain id_alim resto where 2: "lista (f_entrada sim) = id_alim # resto"
    "id_alim \<in> set (map fst (flujos sim))"
    by (auto simp add: circuito_bien_formado_def split: list.splits)
  then obtain alim where 3: "map_of fl' id_alim = Some alim"
    using 1(2) clave_presente [of fl' id_alim] by auto
  have "\<forall>i \<in> f_salida sim \<union> f_salida_conc sim. i \<in> set (map fst fl')"
    using wf 1(2) by (auto simp add: circuito_bien_formado_def)
  then have 4: "\<forall>i \<in> f_salida sim \<union> f_salida_conc sim. map_of fl' i \<noteq> None"
    using clave_presente [of fl'] by blast
  show "\<exists>fl' res. simular lista sim = Inr (fl', res)"
    using 1(1) 2(1) 3 4
      calcular_resultados_exito [of lista "sim\<lparr>flujos := fl'\<rparr>" id_alim resto alim]
    by (simp add: simular_def)
qed

text \<open>
  On the recycle circuit with two passes the flows are far from the steady state, in
  which the product carries the whole feed: the product has mass 75 of the 100 fed, the
  balance errors are 25 and 0.5, and \<^verbatim>\<open>simular\<close> returns them.
\<close>

theorem simular_pasadas_fijas_witness:
  "circuito_bien_formado sorted_list_of_set sim_reciclo \<and>
   simular sorted_list_of_set sim_reciclo =
     Inr (flujos_reciclo_2,
          \<lparr>recuperacion = 75, mass_pull = 75, ley_concentrado = 2,
           razon_enriquecimiento = 1, error_masa = 25, error_cuf = 0.5,
           flujos_res = [(1, 100, 2), (2, 150, 2), (3, 75, 2), (4, 75, 2)]\<rparr>)"
proof -
  have wf: "circuito_bien_formado sorted_list_of_set sim_reciclo"
    by (simp add: circuito_bien_formado_def equipo_bien_formado_def sim_reciclo_campos
        flujo_nuevo_def)
  have f: "fold (\<lambda>e r. case r of Inl x \<Rightarrow> Inl x | Inr s \<Rightarrow> calcular e s)
             (concat (replicate (nat (iteraciones_convergencia sim_reciclo))
                (map snd (equipos sim_reciclo))))
             (Inr (flujos sim_reciclo)) = Inr flujos_reciclo_2"
    by (simp add: sim_reciclo_campos numeral_2_eq_2 calcular_def calcular_celda_def
        calcular_suma_def flujo_nuevo_def actualizar_contenido_fino_def Let_def campo_def
        actualizar_ley_en_def actualizar_ley_total flujos_reciclo_2_def)
  have c: "calcular_resultados sorted_list_of_set (sim_reciclo\<lparr>flujos := flujos_reciclo_2\<rparr>) =
     Inr \<lparr>recuperacion = 75, mass_pull = 75, ley_concentrado = 2,
           razon_enriquecimiento = 1, error_masa = 25, error_cuf = 0.5,
           flujos_res = [(1, 100, 2), (2, 150, 2), (3, 75, 2), (4, 75, 2)]\<rparr>"
    by (subst calcular_resultados_exito [where id_alim = 1 and resto = "[]"
        and alim = "\<lparr>id_flujo = 1, nombre = [], masa = 100, ley = 2, contenido_fino = 2\<rparr>"])
       (simp_all add: sim_reciclo_campos flujos_reciclo_2_def campo_def Let_def)
  from simular_pasadas_fijas [of "[]" "[]" None sim_reciclo "[]" sorted_list_of_set]
  have "simular sorted_list_of_set sim_reciclo =
     (case fold (\<lambda>e r. case r of Inl x \<Rightarrow> Inl x | Inr s \<Rightarrow> calcular e s)
             (concat (replicate (nat (iteraciones_convergencia sim_reciclo))
                (map snd (equipos sim_reciclo))))
             (Inr (flujos sim_reciclo)) of
        Inl x \<Rightarrow> Inl x
      | Inr fl' \<Rightarrow>
          (case calcular_resultados sorted_list_of_set (sim_reciclo\<lparr>flujos := fl'\<rparr>) of
             Inl err \<Rightarrow> Inl (err, fl')
           | Inr res \<Rightarrow> Inr (fl', res)))"
    by blast
  then show ?thesis unfolding f using wf c by simp
qed

text \<open>
  Claim C5. A circuit without recycle streams, with the nodes in the order of a pass,
  whose flows have different keys and in which every flow that no node assigns has the
  fine content derived from its mass and grade, as the loaders create every flow. For
  every list of feed settings applied to it by \<^verbatim>\<open>establecer_alimentacion\<close> and every
  number of passes from 1 on, \<^verbatim>\<open>simular\<close> returns the flows and the result record of
  \<^verbatim>\<open>simular\<close> with one pass, or raises the same exception with the same flows.
\<close>

theorem sin_reciclo_una_pasada:
  assumes "sin_reciclo (map snd (equipos sim))"
    and "distinct (map fst (flujos sim))"
    and "\<forall>(k, f) \<in> set (flujos sim).
           k \<notin> \<Union>(asignados ` set (map snd (equipos sim))) \<longrightarrow> consistente f"
    and "1 \<le> n"
  shows "simular lista ((establecer_alimentaciones sim ajustes)\<lparr>iteraciones_convergencia := n\<rparr>)
       = simular lista ((establecer_alimentaciones sim ajustes)\<lparr>iteraciones_convergencia := 1\<rparr>)"
proof -
  let ?A = "\<Union>(asignados ` set (map snd (equipos sim)))"
  let ?sim = "establecer_alimentaciones sim ajustes"
  have cons: "\<forall>k f. map_of (flujos sim) k = Some f \<and> k \<notin> ?A \<longrightarrow> consistente f"
    using assms(3) by (auto dest!: map_of_SomeD)
  from establecer_alimentaciones_inv [OF cons, of ajustes]
  have e: "equipos ?sim = equipos sim" and k: "map fst (flujos ?sim) = map fst (flujos sim)"
    and c: "\<forall>j f. map_of (flujos ?sim) j = Some f \<and> j \<notin> ?A \<longrightarrow> consistente f"
    by simp_all
  show ?thesis
    by (rule sin_reciclo_una_pasada_aux) (simp_all add: e k c assms)
qed

text \<open>
  The mixer and the splitter on the same feed, with the feed set to mass 100 and grade
  2: a thousand passes give what one pass gives.
\<close>

theorem sin_reciclo_una_pasada_witness:
  "simular sorted_list_of_set
     ((establecer_alimentaciones sim_mixto_0 [(1, 100, 2)])\<lparr>iteraciones_convergencia := 1000\<rparr>)
   = simular sorted_list_of_set
     ((establecer_alimentaciones sim_mixto_0 [(1, 100, 2)])\<lparr>iteraciones_convergencia := 1\<rparr>)"
proof -
  have e: "equipos sim_mixto_0 =
     [(''Suma 1'', \<lparr>nombre_eq = ''Suma 1'', clase_eq = Suma, flujos_entrada = [1],
                    flujos_salida = [2], split_factor = [0, 0]\<rparr>),
      (''Celda 1'', \<lparr>nombre_eq = ''Celda 1'', clase_eq = Celda, flujos_entrada = [1],
                     flujos_salida = [3, 4], split_factor = [0.5, 0.5]\<rparr>)]"
    and f: "flujos sim_mixto_0 =
     [(1, flujo_nuevo 1), (2, flujo_nuevo 2), (3, flujo_nuevo 3), (4, flujo_nuevo 4)]"
    by (simp_all add: sim_mixto_0_def Simulador_init_def split: prod.splits)
  show ?thesis
    by (rule sin_reciclo_una_pasada) (simp_all add: e f consistente_def flujo_nuevo_def)
qed

text \<open>
  Claim C6. The metrics are total. \<^verbatim>\<open>_calcular_resultados\<close> never raises
  \<^verbatim>\<open>ZeroDivisionError\<close>, and \<^verbatim>\<open>actualizar_ley\<close> returns for every flow, with grade 0
  when the mass is 0. When the reference feed and the output flows are in the
  dictionary, \<^verbatim>\<open>_calcular_resultados\<close> returns a record in which the recovery is 0 if
  the fine content of the feed is 0, the mass pull is 0 if the mass of the feed is 0,
  the concentrate grade is 0 if the summed product mass is 0, and the enrichment ratio
  is 0 if the mass pull is 0.
\<close>

theorem metricas_totales:
  "calcular_resultados lista sim \<noteq> Inl ZeroDivisionError \<and>
   (\<exists>f'. actualizar_ley f = Inr f' \<and> (masa f = 0 \<longrightarrow> ley f' = 0)) \<and>
   (lista (f_entrada sim) = id_alim # resto \<and> map_of (flujos sim) id_alim = Some alim \<and>
    (\<forall>i \<in> f_salida sim \<union> f_salida_conc sim. map_of (flujos sim) i \<noteq> None) \<longrightarrow>
    (\<exists>res. calcular_resultados lista sim = Inr res \<and>
       (contenido_fino alim = 0 \<longrightarrow> recuperacion res = 0) \<and>
       (masa alim = 0 \<longrightarrow> mass_pull res = 0) \<and>
       ((\<Sum>i\<in>f_salida_conc sim. campo masa (flujos sim) i) = 0 \<longrightarrow> ley_concentrado res = 0) \<and>
       (mass_pull res = 0 \<longrightarrow> razon_enriquecimiento res = 0)))"
proof (intro conjI impI)
  show "calcular_resultados lista sim \<noteq> Inl ZeroDivisionError"
    using calcular_resultados_error [of lista sim ZeroDivisionError] by auto
  show "\<exists>f'. actualizar_ley f = Inr f' \<and> (masa f = 0 \<longrightarrow> ley f' = 0)"
    by (simp add: actualizar_ley_total)
next
  assume h: "lista (f_entrada sim) = id_alim # resto \<and> map_of (flujos sim) id_alim = Some alim \<and>
    (\<forall>i \<in> f_salida sim \<union> f_salida_conc sim. map_of (flujos sim) i \<noteq> None)"
  show "\<exists>res. calcular_resultados lista sim = Inr res \<and>
       (contenido_fino alim = 0 \<longrightarrow> recuperacion res = 0) \<and>
       (masa alim = 0 \<longrightarrow> mass_pull res = 0) \<and>
       ((\<Sum>i\<in>f_salida_conc sim. campo masa (flujos sim) i) = 0 \<longrightarrow> ley_concentrado res = 0) \<and>
       (mass_pull res = 0 \<longrightarrow> razon_enriquecimiento res = 0)"
    using h calcular_resultados_exito [of lista sim id_alim resto alim]
    by (simp add: Let_def)
qed

theorem metricas_totales_witness:
  "\<exists>res. calcular_resultados sorted_list_of_set
            (sim_ejemplo\<lparr>flujos := [(1, flujo_nuevo 1), (2, flujo_nuevo 2), (3, flujo_nuevo 3)]\<rparr>)
          = Inr res \<and>
     recuperacion res = 0 \<and> mass_pull res = 0 \<and> ley_concentrado res = 0 \<and>
     razon_enriquecimiento res = 0"
  using metricas_totales [of sorted_list_of_set
      "sim_ejemplo\<lparr>flujos := [(1, flujo_nuevo 1), (2, flujo_nuevo 2), (3, flujo_nuevo 3)]\<rparr>"
      "flujo_nuevo 1" 1 "[]" "flujo_nuevo 1"]
  by (auto simp add: sim_ejemplo_campos flujo_nuevo_def campo_def)

text \<open>
  Claim C7, as amended. A target node of the Monte Carlo configuration that is not a
  node of the circuit is skipped in every trial: the run is the run of the configuration
  without the absent targets. No error is raised for them, no sample is drawn and no
  range is looked up.
\<close>

theorem objetivo_ausente_omitido:
  "simular_montecarlo lista uniform sim config alim =
   simular_montecarlo lista uniform sim
     (config\<lparr>equipos_objetivo :=
         filter (\<lambda>n. n \<in> fst ` set (equipos sim)) (equipos_objetivo config)\<rparr>) alim"
  by (simp add: simular_montecarlo_def bucle_mc_filtrar split: sum.splits option.splits)

theorem objetivo_ausente_omitido_witness:
  "simular_montecarlo sorted_list_of_set sorteo_min sim_ejemplo config_ausente [] =
   simular_montecarlo sorted_list_of_set sorteo_min sim_ejemplo
     (config_ausente\<lparr>equipos_objetivo := []\<rparr>) []"
  using objetivo_ausente_omitido [of sorted_list_of_set sorteo_min sim_ejemplo config_ausente "[]"]
  by (simp add: sim_ejemplo_campos config_ausente_def)

text \<open>
  The claim as it is written fails: the only target of the configuration is not a node
  of the circuit, and the run returns a table with the row of its trial.
\<close>

theorem objetivo_ausente_contraejemplo:
  "map_of (equipos sim_ejemplo) ''Celda X'' = None \<and>
   equipos_objetivo config_ausente = [''Celda X''] \<and>
   simular_montecarlo sorted_list_of_set sorteo_min sim_ejemplo config_ausente [] =
     Inr \<lparr>tiene_columnas = True,
          filas = [\<lparr>iteracion = 0, recuperacion_f = 75, mass_pull_f = 10,
                    ley_concentrado_f = 11.25, razon_enriquecimiento_f = 7.5,
                    split_info_f = [],
                    flujos_f = [(1, 100, 1.5), (2, 10, 11.25), (3, 90, 0.375 / 90 * 100)]\<rparr>]\<rparr>"
  using montecarlo_ejemplo_ausente
  by (simp add: sim_ejemplo_campos config_ausente_def)



text \<open>
  Claim C9, at an input where the code fails it. The feed settings give the feed a
  grade of 50, so every trial is discarded by the ceiling, whatever the samples are; the
  table has no rows and no columns, the configuration has a lower bound on the
  concentrate grade, and selecting the column raises: the run ends in \<^verbatim>\<open>KeyError\<close>
  instead of returning an empty table.
\<close>

theorem montecarlo_tabla_vacia:
  "simular_montecarlo lista uniform sim_ejemplo config_ley_alta alimentacion_ley_alta
     = Inl KeyError"
  unfolding simular_montecarlo_def bucle_ley_alta
  by (simp add: config_ley_alta_def pd_DataFrame_def filtrar_ley_def)

text \<open>
  Claim C10. \<^verbatim>\<open>establecer_alimentacion\<close> with a flow id that is not a key of the flows
  of the simulator changes nothing: the simulator, so every flow and every node, is as
  before, and the function has no way to signal the unknown id.
\<close>

theorem establecer_alimentacion_desconocido:
  "map_of (flujos sim) k = None \<Longrightarrow> establecer_alimentacion sim k m l = sim"
  by (simp add: establecer_alimentacion_def fijar_alimentacion_def)

theorem establecer_alimentacion_desconocido_witness:
  "map_of (flujos sim_ejemplo) 7 = None \<and>
   establecer_alimentacion sim_ejemplo 7 50 2 = sim_ejemplo"
  using establecer_alimentacion_desconocido [of sim_ejemplo 7 50 2]
  by (simp add: sim_ejemplo_campos)

end
